theory Spec2Isabelle
  imports Complex_Main "HOL-Library.Sublist" "HOL-Library.Multiset"
begin

section \<open>Identifiers, time and JavaScript string helpers\<close>

text \<open>
  An ObjectId is a natural number. A client sends ids as strings; Mongoose casts such a
  string to an ObjectId or raises a CastError. \<open>Canonical n\<close> is the string that
  \<open>ObjectId.toString()\<close> yields for \<open>n\<close> (24 lower-case hex digits),
  \<open>NonCanonical n\<close> any other string that still casts to \<open>n\<close> (for
  instance the same digits in upper case), \<open>Malformed\<close> a string that does not cast.
  Times are milliseconds since the epoch.
\<close>

type_synonym oid = nat

datatype client_id = Canonical oid | NonCanonical oid | Malformed

fun cast_oid :: "client_id \<Rightarrow> oid option" where
  "cast_oid (Canonical n) = Some n"
| "cast_oid (NonCanonical n) = Some n"
| "cast_oid Malformed = None"

definition oid_toString :: "oid \<Rightarrow> client_id" where
  "oid_toString n = Canonical n"

text \<open>
  Text that the code trims or measures with \<open>.length\<close> for a validator (message
  content, file names, the templates) is a list of UTF-16 code units, as a JavaScript
  string is, each unit an integer from 0 to 65535: \<open>ustring\<close>, with \<open>ascii\<close> for
  a literal of the source. The other
  strings (keys, session ids, MIME types, type names, data URLs) are only compared with
  and searched for ASCII text and are of type \<open>string\<close>, one character per code unit.
\<close>

type_synonym ustring = "int list"

definition ascii :: "string \<Rightarrow> ustring" where
  "ascii s = map of_char s"

text \<open>A JavaScript string is truthy when it is not empty.\<close>

definition truthy :: "'a list \<Rightarrow> bool" where
  "truthy s = (s \<noteq> [])"

definition truthy_opt :: "'a list option \<Rightarrow> bool" where
  "truthy_opt v = (case v of None \<Rightarrow> False | Some s \<Rightarrow> truthy s)"

text \<open>\<open>a || b\<close> on an optional string and a string.\<close>

definition or_else :: "'a list option \<Rightarrow> 'a list \<Rightarrow> 'a list" where
  "or_else v d = (case v of None \<Rightarrow> d | Some s \<Rightarrow> if truthy s then s else d)"

definition startsWith :: "string \<Rightarrow> string \<Rightarrow> bool" where
  "startsWith s p = (take (length p) s = p)"

fun includes_str :: "string \<Rightarrow> string \<Rightarrow> bool" where
  "includes_str [] p = (p = [])"
| "includes_str (c # cs) p = (startsWith (c # cs) p \<or> includes_str cs p)"

text \<open>\<open>s.replace(p, r)\<close> with a string pattern: the first occurrence only.\<close>

fun replace_first :: "string \<Rightarrow> string \<Rightarrow> string \<Rightarrow> string" where
  "replace_first [] p r = (if p = [] then r else [])"
| "replace_first (c # cs) p r =
     (if startsWith (c # cs) p then r @ drop (length p) (c # cs)
      else c # replace_first cs p r)"

text \<open>\<open>s.split(',')[1]\<close>, used only where \<open>s\<close> contains a comma.\<close>

definition split_comma_1 :: "string \<Rightarrow> string" where
  "split_comma_1 s = takeWhile (\<lambda>c. c \<noteq> CHR '','') (drop 1 (dropWhile (\<lambda>c. c \<noteq> CHR '','') s))"

text \<open>
  \<open>String.prototype.trim\<close>, which the schema option \<open>trim: true\<close> applies too,
  strips the white space and line terminator code units of ECMAScript from both ends.
\<close>

definition is_space :: "int \<Rightarrow> bool" where
  "is_space c =
     (c \<in> {0x0009, 0x000A, 0x000B, 0x000C, 0x000D, 0x0020, 0x00A0, 0x1680,
            0x2028, 0x2029, 0x202F, 0x205F, 0x3000, 0xFEFF}
      \<or> (0x2000 \<le> c \<and> c \<le> 0x200A))"

definition trim :: "ustring \<Rightarrow> ustring" where
  "trim s = rev (dropWhile is_space (rev (dropWhile is_space s)))"

text \<open>
  \<open>Math.round(a / b)\<close> for non-negative integers \<open>a\<close> and a positive \<open>b\<close>:
  the nearest integer, a half rounded up.
\<close>

definition round_div :: "nat \<Rightarrow> nat \<Rightarrow> nat" where
  "round_div a b = (2 * a + b) div (2 * b)"

section \<open>Data model (models/Message, models/Conversation, models/AutoMessage)\<close>

datatype delivery_status = Sent | Delivered | Read | Failed

datatype delete_type = ForMe | ForEveryone

record read_entry =
  rb_user :: oid
  rb_readAt :: int
  rb_sessionId :: string

record deleted_entry =
  df_user :: oid
  df_deletedAt :: int
  df_deleteType :: delete_type

text \<open>
  The file payload of a \<open>send_message\<close> event as the client sends it, and the
  \<open>processedFileData\<close> object the handler builds from it. The optional fields
  \<open>thumbnail\<close>, \<open>duration\<close> and \<open>url\<close> are copied through without being
  read by any check and are left out.
\<close>

record file_payload =
  fp_name :: "ustring option"
  fp_type :: "string option"
  fp_data :: "string option"
  fp_size :: "nat option"

record stored_file =
  sf_name :: "ustring option"
  sf_type :: "string option"
  sf_data :: string
  sf_size :: nat

record message =
  m_id :: oid
  m_sender :: oid
  m_conversation :: oid
  m_content :: ustring
  m_type :: string
  m_messageId :: string
  m_sessionId :: string
  m_fileData :: "stored_file option"
  m_readBy :: "read_entry list"
  m_deletedFor :: "deleted_entry list"
  m_isDeleted :: bool
  m_deletedAt :: "int option"
  m_deletedBy :: "oid option"
  m_deliveryStatus :: delivery_status
  m_sentAt :: int
  m_deliveredAt :: "int option"
  m_readAt :: "int option"
  m_createdAt :: int

datatype conversation_type = Private | Group

record conversation =
  c_id :: oid
  c_participants :: "oid list"
  c_type :: conversation_type
  c_lastMessage :: "oid option"
  c_lastActivity :: int
  c_isActive :: bool

record auto_message =
  am_id :: oid
  am_sender :: oid
  am_recipient :: oid
  am_content :: ustring
  am_sendDate :: int
  am_isQueued :: bool
  am_isSent :: bool
  am_queuedAt :: "int option"
  am_sentAt :: "int option"
  am_conversation :: "oid option"

record user =
  u_id :: oid
  u_isActive :: bool

text \<open>The database: one list of documents per collection, in insertion order.\<close>

record store =
  messages :: "message list"
  conversations :: "conversation list"
  autoMessages :: "auto_message list"
  users :: "user list"

text \<open>A new ObjectId is fresh for its collection.\<close>

definition new_oid :: "oid list \<Rightarrow> oid" where
  "new_oid ids = Suc (fold max ids 0)"


section \<open>Events and errors\<close>

datatype js_error = CastError | ValidationError | DuplicateKeyError | TypeError | OnlySenderError

datatype room = ConversationRoom client_id | UserRoom oid

datatype target = ToCaller | ToRoom room | ToRoomExceptCaller room

text \<open>\<open>messageId || savedMessage._id\<close>: the client's key when it is truthy, else the ObjectId.\<close>

datatype message_key = KeyString string | KeyOid oid

datatype payload =
    Error string
  | ErrorDetails string js_error
  | FileSizeError string string string string
  | MessageReceived message oid
  | MessageSent message_key int delivery_status
  | MessageDelivered message_key
  | UnreadCountUpdated oid client_id nat
  | MessagesRead oid "client_id list" string int
  | MessageReadReceipt message_key oid int client_id
  | MessageDeletedForEveryone client_id oid int
  | MessageDeletedForMe client_id int
  | MultipleMessagesDeleted "client_id list" nat nat

type_synonym event = "target \<times> payload"

text \<open>
  What a handler reads besides the database and its arguments: the clock, and the value
  \<open>crypto.randomUUID()\<close> returns.
\<close>

record env =
  e_now :: int
  e_uuid :: string

function string_of_nat :: "nat \<Rightarrow> string" where
  "string_of_nat n =
     (if n < 10 then [char_of (48 + n)]
      else string_of_nat (n div 10) @ [char_of (48 + n mod 10)])"
  by pat_completeness auto
termination
  by (relation "measure id") auto

declare string_of_nat.simps [simp del]

section \<open>Queries and writes shared by the handlers\<close>

text \<open>\<open>Conversation.findOne({_id: conversationId, participants: userId})\<close>.\<close>

definition find_conversation :: "store \<Rightarrow> client_id \<Rightarrow> oid \<Rightarrow> js_error + conversation option" where
  "find_conversation st cid uid =
     (case cast_oid cid of
        None \<Rightarrow> Inl CastError
      | Some c \<Rightarrow> Inr (find (\<lambda>cv. c_id cv = c \<and> uid \<in> set (c_participants cv)) (conversations st)))"

text \<open>\<open>Message.findById(id)\<close>.\<close>

definition find_message :: "store \<Rightarrow> client_id \<Rightarrow> js_error + message option" where
  "find_message st mid =
     (case cast_oid mid of
        None \<Rightarrow> Inl CastError
      | Some i \<Rightarrow> Inr (find (\<lambda>m. m_id m = i) (messages st)))"

text \<open>The schema validators of Message: \<open>content\<close> required and at most 2000 long, \<open>type\<close> in the enum.\<close>

definition message_types :: "string list" where
  "message_types = [''text'', ''image'', ''file'', ''video'', ''audio'', ''system'']"

definition validate_message :: "message \<Rightarrow> bool" where
  "validate_message m =
     (m_content m \<noteq> [] \<and> length (m_content m) \<le> 2000 \<and> m_type m \<in> set message_types)"

text \<open>
  \<open>fixBase64Format\<close> (utils/base64Helper) on a string that is empty or starts with
  \<open>data:\<close>: a data URL with \<open>;base64,\<close> is returned as it is, one with
  \<open>base64,\<close> gets the semicolon, and one without it is rebuilt from what stands before
  and after its first comma. Every string the handlers store starts with \<open>data:\<close>
  (\<open>fixedFileData_of\<close> below); for any other string the source prefixes a MIME type
  read from the first decoded bytes, which is left out here: such a string is returned
  as it is.
\<close>

definition fixBase64Format :: "string \<Rightarrow> string" where
  "fixBase64Format s =
     (if s = [] then s
      else if startsWith s ''data:'' then
        (if includes_str s '';base64,'' then s
         else if includes_str s ''base64,'' then replace_first s ''base64,'' '';base64,''
         else if includes_str s '',''
           then ''data:'' @ takeWhile (\<lambda>c. c \<noteq> CHR '','') (drop 5 s) @ '';base64,''
                  @ tl (dropWhile (\<lambda>c. c \<noteq> CHR '','') s)
           else s)
      else s)"

text \<open>The pre-save hook of Message on \<open>fileData.data\<close>.\<close>

definition pre_save_fileData :: "message \<Rightarrow> message" where
  "pre_save_fileData m =
     m\<lparr>m_fileData := map_option (\<lambda>f. f\<lparr>sf_data := fixBase64Format (sf_data f)\<rparr>) (m_fileData m)\<rparr>"

text \<open>
  \<open>new Message(data).save()\<close>: the schema trims \<open>content\<close>, validation runs, the
  pre-save hook gives a message without \<open>messageId\<close> a random UUID and normalises the
  file data, and the insert fails with a duplicate key error when another message holds
  the same \<open>messageId\<close> (unique index). Failures of the database itself (a lost
  connection, a document over the size limit of the server) are outside the model.
\<close>

definition save_new_message :: "string \<Rightarrow> store \<Rightarrow> message \<Rightarrow> js_error + (store \<times> message)" where
  "save_new_message uuid st m0 =
     (let m1 = m0\<lparr>m_content := trim (m_content m0)\<rparr> in
      if \<not> validate_message m1 then Inl ValidationError
      else
        let m2 = pre_save_fileData
                   (if truthy (m_messageId m1) then m1 else m1\<lparr>m_messageId := uuid\<rparr>) in
        if \<exists>x \<in> set (messages st). m_messageId x = m_messageId m2 then Inl DuplicateKeyError
        else Inr (st\<lparr>messages := messages st @ [m2]\<rparr>, m2))"

text \<open>\<open>conversation.lastMessage = id; conversation.lastActivity = new Date(); conversation.save()\<close>.\<close>

definition touch_conversation :: "oid \<Rightarrow> oid \<Rightarrow> int \<Rightarrow> store \<Rightarrow> store" where
  "touch_conversation c mid t st =
     st\<lparr>conversations :=
          map (\<lambda>cv. if c_id cv = c then cv\<lparr>c_lastMessage := Some mid, c_lastActivity := t\<rparr> else cv)
              (conversations st)\<rparr>"

text \<open>
  \<open>Message.countDocuments({sender, conversation, 'readBy.user': {$ne: viewer},
  isDeleted: false, 'deletedFor.user': {$ne: viewer}})\<close>.
\<close>

definition unread_count :: "store \<Rightarrow> oid \<Rightarrow> oid \<Rightarrow> oid \<Rightarrow> nat" where
  "unread_count st sender c viewer =
     length (filter (\<lambda>m. m_sender m = sender \<and> m_conversation m = c
                          \<and> viewer \<notin> set (map rb_user (m_readBy m))
                          \<and> \<not> m_isDeleted m
                          \<and> viewer \<notin> set (map df_user (m_deletedFor m)))
                    (messages st))"

section \<open>send_message (socket handler)\<close>

record send_payload =
  sp_conversationId :: client_id
  sp_content :: ustring
  sp_type :: "string option"
  sp_messageId :: string
  sp_sessionId :: string
  sp_fileData :: "file_payload option"

text \<open>\<open>fileData && fileData.data\<close>.\<close>

definition has_file_data :: "file_payload option \<Rightarrow> bool" where
  "has_file_data fd = (case fd of None \<Rightarrow> False | Some f \<Rightarrow> truthy_opt (fp_data f))"

definition classify :: "string \<Rightarrow> string" where
  "classify t =
     (if startsWith t ''image/'' then ''image''
      else if startsWith t ''video/'' then ''video''
      else if startsWith t ''audio/'' then ''audio''
      else ''file'')"

definition maxSizes :: "string \<Rightarrow> nat option" where
  "maxSizes k =
     (if k = ''image'' then Some (10 * 1024 * 1024)
      else if k = ''video'' then Some (50 * 1024 * 1024)
      else if k = ''audio'' then Some (20 * 1024 * 1024)
      else if k = ''file'' then Some (20 * 1024 * 1024)
      else None)"

text \<open>
  \<open>maxSizes[messageType] || maxSizes.file\<close>. A key that names a property of
  \<open>Object.prototype\<close> yields that property, which is truthy and not a number, and
  \<open>actualFileSize > maxSize\<close> is then false: the result \<open>None\<close>.
\<close>

definition object_prototype_keys :: "string list" where
  "object_prototype_keys =
     [''constructor'', ''__defineGetter__'', ''__defineSetter__'', ''hasOwnProperty'',
      ''__lookupGetter__'', ''__lookupSetter__'', ''isPrototypeOf'', ''propertyIsEnumerable'',
      ''toString'', ''valueOf'', ''__proto__'', ''toLocaleString'']"

definition maxSize_of :: "string \<Rightarrow> nat option" where
  "maxSize_of k =
     (case maxSizes k of
        Some n \<Rightarrow> Some n
      | None \<Rightarrow> if k \<in> set object_prototype_keys then None else maxSizes ''file'')"

text \<open>The message type after the file branch: the MIME category when \<open>fileData.type\<close> is truthy.\<close>

definition messageType_of :: "send_payload \<Rightarrow> string" where
  "messageType_of p =
     (let t = (case sp_type p of None \<Rightarrow> ''text'' | Some t \<Rightarrow> t) in
      case sp_fileData p of
        None \<Rightarrow> t
      | Some f \<Rightarrow>
          if truthy_opt (fp_data f) \<and> truthy_opt (fp_type f) then classify (the (fp_type f)) else t)"

text \<open>\<open>messageContent\<close> before trimming: \<open>fileData.name || content || 'File'\<close> with file data.\<close>

definition messageContent_of :: "send_payload \<Rightarrow> ustring" where
  "messageContent_of p =
     (case sp_fileData p of
        None \<Rightarrow> sp_content p
      | Some f \<Rightarrow>
          if truthy_opt (fp_data f)
          then or_else (fp_name f) (or_else (Some (sp_content p)) (ascii ''File''))
          else sp_content p)"

text \<open>The template literal \<open>${fileData.type}\<close> prints a missing type as \<open>undefined\<close>.\<close>

definition fixedFileData_of :: "file_payload \<Rightarrow> string" where
  "fixedFileData_of f =
     (let d0 = the (fp_data f);
          d1 = (if \<not> includes_str d0 '';base64,'' \<and> includes_str d0 ''base64,''
                then replace_first d0 ''base64,'' '';base64,'' else d0)
      in if \<not> startsWith d1 ''data:''
         then ''data:'' @ (case fp_type f of None \<Rightarrow> ''undefined'' | Some t \<Rightarrow> t) @ '';base64,'' @ d1
         else d1)"

definition base64Data_of :: "file_payload \<Rightarrow> string" where
  "base64Data_of f =
     (let d = fixedFileData_of f in if includes_str d '','' then split_comma_1 d else d)"

text \<open>\<open>Math.round((base64Data.length * 3) / 4)\<close>.\<close>

definition actualFileSize_of :: "file_payload \<Rightarrow> nat" where
  "actualFileSize_of f = round_div (length (base64Data_of f) * 3) 4"

definition mb :: nat where
  "mb = 1024 * 1024"

definition file_size_error :: "string \<Rightarrow> nat \<Rightarrow> nat \<Rightarrow> payload" where
  "file_size_error mt actual maxSize =
     (let limitMB = round_div maxSize mb in
      FileSizeError (''File size exceeds limit of '' @ string_of_nat limitMB @ ''MB'')
                    (string_of_nat (round_div actual mb) @ ''MB'')
                    (string_of_nat limitMB @ ''MB'')
                    mt)"

definition processedFileData_of :: "file_payload \<Rightarrow> stored_file" where
  "processedFileData_of f =
     \<lparr>sf_name = fp_name f, sf_type = fp_type f, sf_data = fixedFileData_of f,
      sf_size = actualFileSize_of f\<rparr>"

definition key_of :: "string \<Rightarrow> oid \<Rightarrow> message_key" where
  "key_of k i = (if truthy k then KeyString k else KeyOid i)"

definition messageData_of :: "env \<Rightarrow> oid \<Rightarrow> oid \<Rightarrow> send_payload \<Rightarrow> store \<Rightarrow> message" where
  "messageData_of e uid c p st =
     \<lparr>m_id = new_oid (map m_id (messages st)),
      m_sender = uid,
      m_conversation = c,
      m_content = trim (messageContent_of p),
      m_type = messageType_of p,
      m_messageId = (if truthy (sp_messageId p) then sp_messageId p else e_uuid e),
      m_sessionId = sp_sessionId p,
      m_fileData = (if has_file_data (sp_fileData p)
                    then Some (processedFileData_of (the (sp_fileData p))) else None),
      m_readBy = [],
      m_deletedFor = [],
      m_isDeleted = False,
      m_deletedAt = None,
      m_deletedBy = None,
      m_deliveryStatus = Sent,
      m_sentAt = e_now e,
      m_deliveredAt = None,
      m_readAt = None,
      m_createdAt = e_now e\<rparr>"

text \<open>
  The handler, in the order of the source: the size check (\<open>oversize_of\<close>), the
  empty-content check, then the save and what follows it (\<open>persist_message\<close>). Every
  \<open>return\<close> after an emitted error and the \<open>catch\<close> block are branches that leave
  the database as it was. The callback passed to \<open>setTimeout\<close> is
  \<open>promote_delivered\<close> below, run later as a step of its own.
\<close>

definition oversize_of :: "send_payload \<Rightarrow> payload option" where
  "oversize_of p =
     (if has_file_data (sp_fileData p)
      then (case maxSize_of (messageType_of p) of
              None \<Rightarrow> None
            | Some mx \<Rightarrow>
                (let actual = actualFileSize_of (the (sp_fileData p))
                 in if actual > mx then Some (file_size_error (messageType_of p) actual mx)
                    else None))
      else None)"

definition persist_message :: "env \<Rightarrow> oid \<Rightarrow> conversation \<Rightarrow> send_payload \<Rightarrow> store \<Rightarrow> store \<times> event list" where
  "persist_message e uid cv p st =
     (case save_new_message (e_uuid e) st (messageData_of e uid (c_id cv) p st) of
        Inl err \<Rightarrow> (st, [(ToCaller, ErrorDetails ''Error sending message'' err)])
      | Inr (st1, saved) \<Rightarrow>
          (touch_conversation (c_id cv) (m_id saved) (e_now e) st1,
           [(ToRoom (ConversationRoom (sp_conversationId p)), MessageReceived saved (c_id cv)),
            (ToCaller,
               MessageSent (key_of (sp_messageId p) (m_id saved)) (m_createdAt saved) Sent)]))"

definition send_in_conversation :: "env \<Rightarrow> oid \<Rightarrow> conversation \<Rightarrow> send_payload \<Rightarrow> store \<Rightarrow> store \<times> event list" where
  "send_in_conversation e uid cv p st =
     (case oversize_of p of
        Some err \<Rightarrow> (st, [(ToCaller, err)])
      | None \<Rightarrow>
          (if trim (messageContent_of p) = [] \<and> \<not> has_file_data (sp_fileData p)
           then (st, [(ToCaller, Error ''Message content or file required'')])
           else persist_message e uid cv p st))"

definition send_message :: "env \<Rightarrow> oid \<Rightarrow> send_payload \<Rightarrow> store \<Rightarrow> store \<times> event list" where
  "send_message e uid p st =
     (if \<not> truthy (sp_sessionId p) then (st, [(ToCaller, Error ''Session ID required'')])
      else (case find_conversation st (sp_conversationId p) uid of
              Inl err \<Rightarrow> (st, [(ToCaller, ErrorDetails ''Error sending message'' err)])
            | Inr None \<Rightarrow> (st, [(ToCaller, Error ''Conversation not found'')])
            | Inr (Some cv) \<Rightarrow> send_in_conversation e uid cv p st))"

text \<open>
  The deferred callback of \<open>send_message\<close> for the saved message \<open>mid\<close>: the in-memory
  document, whose status is still \<open>sent\<close>, is set to \<open>delivered\<close> and saved, which
  writes the two modified paths whatever the stored document holds by then.
  \<open>participants\<close> are the participants of the conversation as the handler loaded them
  when the message was sent.
\<close>

definition promote_delivered :: "env \<Rightarrow> oid \<Rightarrow> oid list \<Rightarrow> client_id \<Rightarrow> oid \<Rightarrow> store \<Rightarrow> store \<times> event list" where
  "promote_delivered e uid participants cid mid st =
     (case find (\<lambda>m. m_id m = mid) (messages st) of
        None \<Rightarrow> (st, [])
      | Some saved \<Rightarrow>
          let st1 = st\<lparr>messages :=
                         map (\<lambda>m. if m_id m = mid
                                   then m\<lparr>m_deliveryStatus := Delivered, m_deliveredAt := Some (e_now e)\<rparr>
                                   else m)
                             (messages st)\<rparr>;
              otherParticipants = filter (\<lambda>u. u \<noteq> uid) participants
          in (st1,
              (ToCaller, MessageDelivered (key_of (m_messageId saved) (m_id saved)))
              # (case cast_oid cid of
                   None \<Rightarrow> []
                 | Some c \<Rightarrow>
                     map (\<lambda>u. (ToRoom (UserRoom u), UnreadCountUpdated uid cid (unread_count st1 uid c u)))
                         otherParticipants)))"


section \<open>mark_messages_read (socket handler) and Message.markMultipleAsRead\<close>

text \<open>\<open>messageIds\<close> is \<open>None\<close> when the field is missing or not an array.\<close>

record mark_payload =
  mp_messageIds :: "client_id list option"
  mp_conversationId :: client_id
  mp_sessionId :: string

text \<open>Casting the ids of \<open>{$in: messageIds}\<close>: one id that does not cast fails the query.\<close>

fun cast_all :: "client_id list \<Rightarrow> oid list option" where
  "cast_all [] = Some []"
| "cast_all (x # xs) =
     (case cast_oid x of
        None \<Rightarrow> None
      | Some i \<Rightarrow> (case cast_all xs of None \<Rightarrow> None | Some is \<Rightarrow> Some (i # is)))"

definition read_filter :: "oid list \<Rightarrow> oid \<Rightarrow> oid \<Rightarrow> message \<Rightarrow> bool" where
  "read_filter ids c uid m =
     (m_id m \<in> set ids \<and> m_conversation m = c
      \<and> uid \<notin> set (map rb_user (m_readBy m))
      \<and> \<not> m_isDeleted m
      \<and> uid \<notin> set (map df_user (m_deletedFor m)))"

definition read_update :: "oid \<Rightarrow> int \<Rightarrow> string \<Rightarrow> message \<Rightarrow> message" where
  "read_update uid t sid m =
     m\<lparr>m_readBy := m_readBy m @ [\<lparr>rb_user = uid, rb_readAt = t, rb_sessionId = sid\<rparr>],
       m_deliveryStatus := Read,
       m_readAt := Some t\<rparr>"

text \<open>\<open>Message.updateMany(filter, update)\<close> and its \<open>modifiedCount\<close>.\<close>

definition updateMany :: "(message \<Rightarrow> bool) \<Rightarrow> (message \<Rightarrow> message) \<Rightarrow> store \<Rightarrow> store \<times> nat" where
  "updateMany f u st =
     (st\<lparr>messages := map (\<lambda>m. if f m then u m else m) (messages st)\<rparr>,
      length (filter f (messages st)))"

text \<open>
  The database applies the filter and the update of \<open>updateMany\<close> to one document at a
  time, atomically for that document. \<open>update_doc\<close> is that unit, on the document at
  position \<open>i\<close>; calls that run concurrently interleave such units.
\<close>

definition update_doc :: "(message \<Rightarrow> bool) \<Rightarrow> (message \<Rightarrow> message) \<Rightarrow> nat \<Rightarrow> store \<Rightarrow> store" where
  "update_doc f u i st =
     (if i < length (messages st) \<and> f (messages st ! i)
      then st\<lparr>messages := (messages st)[i := u (messages st ! i)]\<rparr>
      else st)"

text \<open>\<open>[...new Set(xs)]\<close>: the first occurrence of each value, in order.\<close>

definition unique :: "'a list \<Rightarrow> 'a list" where
  "unique xs = rev (remdups (rev xs))"

definition read_events :: "env \<Rightarrow> oid \<Rightarrow> mark_payload \<Rightarrow> client_id list \<Rightarrow> oid list \<Rightarrow> oid \<Rightarrow> store \<Rightarrow> event list" where
  "read_events e uid p raw ids c st =
     (let readMessages = filter (\<lambda>m. m_id m \<in> set ids \<and> m_conversation m = c) (messages st);
          receipts =
            map (\<lambda>m. (ToRoom (UserRoom (m_sender m)),
                       MessageReadReceipt (key_of (m_messageId m) (m_id m)) uid (e_now e)
                                          (mp_conversationId p)))
                (filter (\<lambda>m. m_sender m \<noteq> uid) readMessages);
          uniqueSenders = unique (map m_sender readMessages);
          counts =
            map (\<lambda>s. (ToCaller, UnreadCountUpdated s (mp_conversationId p) (unread_count st s c uid)))
                (filter (\<lambda>s. s \<noteq> uid) uniqueSenders)
      in (ToRoomExceptCaller (ConversationRoom (mp_conversationId p)),
          MessagesRead uid raw (mp_sessionId p) (e_now e)) # receipts @ counts)"

text \<open>
  The handler emits nothing on any of its early returns, and its \<open>catch\<close> block only
  logs.
\<close>

definition mark_in_conversation :: "env \<Rightarrow> oid \<Rightarrow> mark_payload \<Rightarrow> client_id list \<Rightarrow> conversation \<Rightarrow> store \<Rightarrow> store \<times> event list" where
  "mark_in_conversation e uid p raw cv st =
     (case cast_all raw of
        None \<Rightarrow> (st, [])
      | Some ids \<Rightarrow>
          (let r = updateMany (read_filter ids (c_id cv) uid)
                              (read_update uid (e_now e) (mp_sessionId p)) st
           in if snd r > 0 then (fst r, read_events e uid p raw ids (c_id cv) (fst r))
              else (fst r, [])))"

definition mark_messages_read :: "env \<Rightarrow> oid \<Rightarrow> mark_payload \<Rightarrow> store \<Rightarrow> store \<times> event list" where
  "mark_messages_read e uid p st =
     (case mp_messageIds p of
        None \<Rightarrow> (st, [])
      | Some raw \<Rightarrow>
          (if \<not> truthy (mp_sessionId p) then (st, [])
           else (case find_conversation st (mp_conversationId p) uid of
                   Inl err \<Rightarrow> (st, [])
                 | Inr None \<Rightarrow> (st, [])
                 | Inr (Some cv) \<Rightarrow> mark_in_conversation e uid p raw cv st)))"

text \<open>The static \<open>markMultipleAsRead(messageIds, userId, sessionId)\<close> of the model.\<close>

definition markMultipleAsRead :: "env \<Rightarrow> oid list \<Rightarrow> oid \<Rightarrow> string \<Rightarrow> store \<Rightarrow> store \<times> nat" where
  "markMultipleAsRead e ids uid sid st =
     updateMany (\<lambda>m. m_id m \<in> set ids \<and> uid \<notin> set (map rb_user (m_readBy m)))
                (read_update uid (e_now e) sid) st"

section \<open>delete_message and delete_multiple_messages (socket handlers)\<close>

text \<open>
  The method \<open>deleteForUser(userId, deleteType)\<close>, up to its \<open>this.save()\<close>: the
  document as changed in memory, or the error it throws.
\<close>

definition deleteForUser :: "int \<Rightarrow> oid \<Rightarrow> delete_type \<Rightarrow> message \<Rightarrow> js_error + message" where
  "deleteForUser t uid dt m =
     (case dt of
        ForEveryone \<Rightarrow>
          (if m_sender m \<noteq> uid then Inl OnlySenderError
           else Inr (m\<lparr>m_isDeleted := True, m_deletedAt := Some t, m_deletedBy := Some uid\<rparr>))
      | ForMe \<Rightarrow>
          (if uid \<in> set (map df_user (m_deletedFor m)) then Inr m
           else Inr (m\<lparr>m_deletedFor :=
                          m_deletedFor m @ [\<lparr>df_user = uid, df_deletedAt = t, df_deleteType = ForMe\<rparr>]\<rparr>)))"

text \<open>\<open>this.save()\<close> of a document that was loaded just before: it replaces the stored one.\<close>

definition save_message :: "message \<Rightarrow> store \<Rightarrow> store" where
  "save_message m st =
     st\<lparr>messages := map (\<lambda>x. if m_id x = m_id m then m else x) (messages st)\<rparr>"

record delete_payload =
  dp_messageId :: client_id
  dp_deleteType :: string
  dp_conversationId :: client_id

definition one_hour :: int where
  "one_hour = 60 * 60 * 1000"

definition delete_for_everyone :: "env \<Rightarrow> oid \<Rightarrow> delete_payload \<Rightarrow> message \<Rightarrow> store \<Rightarrow> store \<times> event list" where
  "delete_for_everyone e uid p m st =
     (if m_sender m \<noteq> uid
      then (st, [(ToCaller, Error ''Only sender can delete for everyone'')])
      else if m_createdAt m < e_now e - one_hour
      then (st, [(ToCaller, Error ''Message can only be deleted for everyone within 1 hour'')])
      else (case deleteForUser (e_now e) uid ForEveryone m of
              Inl err \<Rightarrow> (st, [(ToCaller, Error ''Error deleting message'')])
            | Inr m' \<Rightarrow>
                (save_message m' st,
                 [(ToRoom (ConversationRoom (dp_conversationId p)),
                   MessageDeletedForEveryone (dp_messageId p) uid (e_now e))])))"

definition delete_for_me :: "env \<Rightarrow> oid \<Rightarrow> delete_payload \<Rightarrow> message \<Rightarrow> store \<Rightarrow> store \<times> event list" where
  "delete_for_me e uid p m st =
     (case deleteForUser (e_now e) uid ForMe m of
        Inl err \<Rightarrow> (st, [(ToCaller, Error ''Error deleting message'')])
      | Inr m' \<Rightarrow> (save_message m' st, [(ToCaller, MessageDeletedForMe (dp_messageId p) (e_now e))]))"

text \<open>
  \<open>Message.findById(messageId).populate('conversation')\<close>: a message whose conversation
  document is missing has \<open>conversation = null\<close>, and reading its participants throws.
\<close>

definition delete_message :: "env \<Rightarrow> oid \<Rightarrow> delete_payload \<Rightarrow> store \<Rightarrow> store \<times> event list" where
  "delete_message e uid p st =
     (case find_message st (dp_messageId p) of
        Inl err \<Rightarrow> (st, [(ToCaller, Error ''Error deleting message'')])
      | Inr None \<Rightarrow> (st, [(ToCaller, Error ''Message not found'')])
      | Inr (Some m) \<Rightarrow>
          (case find (\<lambda>cv. c_id cv = m_conversation m) (conversations st) of
             None \<Rightarrow> (st, [(ToCaller, Error ''Error deleting message'')])
           | Some cv \<Rightarrow>
               (if uid \<notin> set (c_participants cv) then (st, [(ToCaller, Error ''Access denied'')])
                else if dp_deleteType p = ''forEveryone'' then delete_for_everyone e uid p m st
                else delete_for_me e uid p m st)))"

record bulk_delete_payload =
  bd_messageIds :: "client_id list option"
  bd_conversationId :: client_id

text \<open>
  One round of the \<open>for\<close> loop with its own \<open>try\<close>/\<open>catch\<close>: the accumulator is the
  database, \<open>deletedCount\<close> and \<open>deletedMessageIds\<close>.
\<close>

definition delete_one :: "env \<Rightarrow> oid \<Rightarrow> client_id \<Rightarrow> client_id \<Rightarrow> store \<times> nat \<times> client_id list \<Rightarrow> store \<times> nat \<times> client_id list" where
  "delete_one e uid cid mid acc =
     (case acc of (st, n, deleted) \<Rightarrow>
        (case find_message st mid of
           Inl err \<Rightarrow> (st, n, deleted)
         | Inr None \<Rightarrow> (st, n, deleted)
         | Inr (Some m) \<Rightarrow>
             (if oid_toString (m_conversation m) = cid
              then (case deleteForUser (e_now e) uid ForMe m of
                      Inl err \<Rightarrow> (st, n, deleted)
                    | Inr m' \<Rightarrow> (save_message m' st, n + 1, deleted @ [mid]))
              else (st, n, deleted))))"

fun delete_loop :: "env \<Rightarrow> oid \<Rightarrow> client_id \<Rightarrow> client_id list \<Rightarrow> store \<times> nat \<times> client_id list \<Rightarrow> store \<times> nat \<times> client_id list" where
  "delete_loop e uid cid [] acc = acc"
| "delete_loop e uid cid (mid # rest) acc = delete_loop e uid cid rest (delete_one e uid cid mid acc)"

definition delete_multiple_messages :: "env \<Rightarrow> oid \<Rightarrow> bulk_delete_payload \<Rightarrow> store \<Rightarrow> store \<times> event list" where
  "delete_multiple_messages e uid p st =
     (case bd_messageIds p of
        None \<Rightarrow> (st, [(ToCaller, Error ''Invalid message IDs'')])
      | Some ids \<Rightarrow>
          (if ids = [] then (st, [(ToCaller, Error ''Invalid message IDs'')])
           else (case find_conversation st (bd_conversationId p) uid of
                   Inl err \<Rightarrow> (st, [(ToCaller, Error ''Error deleting messages'')])
                 | Inr None \<Rightarrow> (st, [(ToCaller, Error ''Conversation not found'')])
                 | Inr (Some cv) \<Rightarrow>
                     (case delete_loop e uid (bd_conversationId p) ids (st, 0, []) of
                        (st', n, deleted) \<Rightarrow>
                          (st', [(ToCaller, MultipleMessagesDeleted deleted n (length ids))])))))"

section \<open>Queue consumer (services/queueService)\<close>

text \<open>
  The content of a queue message: text that \<open>JSON.parse\<close> rejects, or an object whose
  \<open>autoMessageId\<close> is an id string. The consumer answers with \<open>channel.ack(msg)\<close> or
  \<open>channel.nack(msg, false, false)\<close> (no requeue).
\<close>

datatype work_item = NotJson | Item client_id

datatype acknowledgement = Ack | NackNoRequeue

definition user_exists :: "store \<Rightarrow> oid \<Rightarrow> bool" where
  "user_exists st u = (\<exists>x \<in> set (users st). u_id x = u)"

text \<open>\<open>Conversation.findOne({participants: {$all: [s, r]}, type: 'private'})\<close>.\<close>

definition find_private_conversation :: "store \<Rightarrow> oid \<Rightarrow> oid \<Rightarrow> conversation option" where
  "find_private_conversation st s r =
     find (\<lambda>cv. s \<in> set (c_participants cv) \<and> r \<in> set (c_participants cv) \<and> c_type cv = Private)
          (conversations st)"

definition find_or_create_conversation :: "env \<Rightarrow> oid \<Rightarrow> oid \<Rightarrow> store \<Rightarrow> store \<times> conversation" where
  "find_or_create_conversation e s r st =
     (case find_private_conversation st s r of
        Some cv \<Rightarrow> (st, cv)
      | None \<Rightarrow>
          (let cv = \<lparr>c_id = new_oid (map c_id (conversations st)), c_participants = [s, r],
                     c_type = Private, c_lastMessage = None, c_lastActivity = e_now e,
                     c_isActive = True\<rparr>
           in (st\<lparr>conversations := conversations st @ [cv]\<rparr>, cv)))"

definition auto_message_data :: "env \<Rightarrow> auto_message \<Rightarrow> oid \<Rightarrow> store \<Rightarrow> message" where
  "auto_message_data e am c st =
     \<lparr>m_id = new_oid (map m_id (messages st)),
      m_sender = am_sender am,
      m_conversation = c,
      m_content = am_content am,
      m_type = ''text'',
      m_messageId = [],
      m_sessionId = [],
      m_fileData = None,
      m_readBy = [],
      m_deletedFor = [],
      m_isDeleted = False,
      m_deletedAt = None,
      m_deletedBy = None,
      m_deliveryStatus = Sent,
      m_sentAt = e_now e,
      m_deliveredAt = None,
      m_readAt = None,
      m_createdAt = e_now e\<rparr>"

definition mark_sent :: "oid \<Rightarrow> int \<Rightarrow> oid \<Rightarrow> store \<Rightarrow> store" where
  "mark_sent a t c st =
     st\<lparr>autoMessages :=
          map (\<lambda>x. if am_id x = a
                    then x\<lparr>am_isSent := True, am_sentAt := Some t, am_conversation := Some c\<rparr>
                    else x)
              (autoMessages st)\<rparr>"

text \<open>
  The part of \<open>processAutoMessage\<close> after the skip test. The third component is the
  error that the function's own \<open>catch\<close> block logs, if any; what was written before
  the error stays written.
\<close>

definition deliver_auto_message :: "env \<Rightarrow> auto_message \<Rightarrow> store \<Rightarrow> store \<times> event list \<times> js_error option" where
  "deliver_auto_message e am st =
     (if \<not> user_exists st (am_sender am) \<or> \<not> user_exists st (am_recipient am)
      then (st, [], Some TypeError)
      else (case find_or_create_conversation e (am_sender am) (am_recipient am) st of
              (st1, cv) \<Rightarrow>
                (case save_new_message (e_uuid e) st1 (auto_message_data e am (c_id cv) st1) of
                   Inl err \<Rightarrow> (st1, [], Some err)
                 | Inr (st2, saved) \<Rightarrow>
                     (mark_sent (am_id am) (e_now e) (c_id cv)
                        (touch_conversation (c_id cv) (m_id saved) (e_now e) st2),
                      [(ToRoom (UserRoom (am_recipient am)), MessageReceived saved (c_id cv))],
                      None))))"

definition processAutoMessage :: "env \<Rightarrow> client_id \<Rightarrow> store \<Rightarrow> store \<times> event list \<times> js_error option" where
  "processAutoMessage e aid st =
     (case cast_oid aid of
        None \<Rightarrow> (st, [], Some CastError)
      | Some a \<Rightarrow>
          (case find (\<lambda>x. am_id x = a) (autoMessages st) of
             None \<Rightarrow> (st, [], None)
           | Some am \<Rightarrow> (if am_isSent am then (st, [], None) else deliver_auto_message e am st)))"

text \<open>
  The callback of \<open>channel.consume\<close>: \<open>processAutoMessage\<close> returns normally whatever
  happened inside it, so the \<open>catch\<close> branch is reached from \<open>JSON.parse\<close> only.
\<close>

definition consume :: "env \<Rightarrow> work_item \<Rightarrow> store \<Rightarrow> store \<times> event list \<times> acknowledgement" where
  "consume e item st =
     (case item of
        NotJson \<Rightarrow> (st, [], NackNoRequeue)
      | Item aid \<Rightarrow>
          (case processAutoMessage e aid st of (st', evs, logged) \<Rightarrow> (st', evs, Ack)))"

section \<open>Planner (services/cronService)\<close>

text \<open>
  The ten literals of \<open>messageTemplates\<close>; a character outside ASCII is written as
  its code unit.
\<close>

definition messageTemplates :: "ustring list" where
  "messageTemplates =
     [ascii ''Merhaba! Nas'' @ [0x0131] @ ascii ''ls'' @ [0x0131] @ ascii ''n?'',
      ascii ''Bug'' @ [0x00FC] @ ascii ''n nas'' @ [0x0131] @ ascii ''l ge'' @ [0x00E7] @ ascii ''iyor?'',
      ascii ''Seni merak ettim, ne yap'' @ [0x0131] @ ascii ''yorsun?'',
      ascii ''Umar'' @ [0x0131] @ ascii ''m g'' @ [0x00FC] @ ascii ''zel bir g'' @ [0x00FC] @ ascii ''n ge'' @ [0x00E7] @ ascii ''iriyorsundur!'',
      ascii ''Selam! Keyifler nas'' @ [0x0131] @ ascii ''l?'',
      ascii ''Hey! Uzun zamand'' @ [0x0131] @ ascii ''r konu'' @ [0x015F] @ ascii ''muyoruz.'',
      ascii ''Nas'' @ [0x0131] @ ascii ''l gidiyor i'' @ [0x015F] @ ascii ''ler?'',
      ascii ''Bug'' @ [0x00FC] @ ascii ''n nerelerdeydin?'',
      ascii ''Hava '' @ [0x00E7] @ ascii ''ok g'' @ [0x00FC] @ ascii ''zel de'' @ [0x011F] @ ascii ''il mi?'',
      ascii ''Yak'' @ [0x0131] @ ascii ''nda g'' @ [0x00F6] @ ascii ''r'' @ [0x00FC, 0x015F] @ ascii ''elim mi?'']"

text \<open>
  \<open>Math.random()\<close> is a stream \<open>rnd\<close> of reals, each in \<open>[0, 1)\<close>; the functions
  below take the index \<open>k\<close> of the next value and the loops count the values they use.
\<close>

text \<open>The body of \<open>shuffleArray\<close>'s loop for \<open>i\<close> down to \<open>1\<close>.\<close>

fun shuffle_loop :: "(nat \<Rightarrow> real) \<Rightarrow> nat \<Rightarrow> nat \<Rightarrow> 'a list \<Rightarrow> 'a list" where
  "shuffle_loop rnd k 0 xs = xs"
| "shuffle_loop rnd k (Suc i) xs =
     (let j = nat \<lfloor>rnd k * real (Suc i + 1)\<rfloor>
      in shuffle_loop rnd (Suc k) i (xs[Suc i := xs ! j, j := xs ! Suc i]))"

definition shuffleArray :: "(nat \<Rightarrow> real) \<Rightarrow> 'a list \<Rightarrow> 'a list" where
  "shuffleArray rnd xs = shuffle_loop rnd 0 (length xs - 1) xs"

text \<open>\<open>for (let i = 0; i < shuffledUsers.length - 1; i += 2)\<close>.\<close>

function pair_loop :: "'a list \<Rightarrow> nat \<Rightarrow> ('a \<times> 'a) list" where
  "pair_loop xs i =
     (if i + 1 < length xs then (xs ! i, xs ! (i + 1)) # pair_loop xs (i + 2) else [])"
  by pat_completeness auto
termination
  by (relation "measure (\<lambda>(xs, i). length xs - i)") auto

declare pair_loop.simps [simp del]

text \<open>
  One AutoMessage per pair: \<open>new AutoMessage({...})\<close> applies the schema's \<open>trim\<close> to
  the template, and \<open>new Date(x)\<close> drops the fraction of \<open>x\<close>. \<open>now\<close> is the
  reading of \<open>Date.now()\<close> during the run.
\<close>

definition day_ms :: real where
  "day_ms = 24 * 60 * 60 * 1000"

fun build_auto_messages :: "(nat \<Rightarrow> real) \<Rightarrow> nat \<Rightarrow> int \<Rightarrow> oid \<Rightarrow> (user \<times> user) list \<Rightarrow> auto_message list" where
  "build_auto_messages rnd k now i [] = []"
| "build_auto_messages rnd k now i ((sender, recipient) # ps) =
     \<lparr>am_id = i,
      am_sender = u_id sender,
      am_recipient = u_id recipient,
      am_content = trim (messageTemplates ! nat \<lfloor>rnd k * real (length messageTemplates)\<rfloor>),
      am_sendDate = \<lfloor>real_of_int now + rnd (Suc k) * day_ms\<rfloor>,
      am_isQueued = False,
      am_isSent = False,
      am_queuedAt = None,
      am_sentAt = None,
      am_conversation = None\<rparr>
     # build_auto_messages rnd (k + 2) now (Suc i) ps"

text \<open>
  \<open>AutoMessage.insertMany\<close> validates every document first (\<open>content\<close> is required)
  and inserts none when one fails; the planner's \<open>catch\<close> block logs the error.
\<close>

definition insertMany :: "auto_message list \<Rightarrow> store \<Rightarrow> store" where
  "insertMany ams st =
     (if \<forall>a \<in> set ams. am_content a \<noteq> [] then st\<lparr>autoMessages := autoMessages st @ ams\<rparr> else st)"

definition planAutomaticMessages :: "(nat \<Rightarrow> real) \<Rightarrow> int \<Rightarrow> store \<Rightarrow> store" where
  "planAutomaticMessages rnd now st =
     (let activeUsers = filter u_isActive (users st) in
      if length activeUsers < 2 then st
      else
        (let shuffledUsers = shuffleArray rnd activeUsers;
             pairs = pair_loop shuffledUsers 0;
             autoMessages = build_auto_messages rnd (length activeUsers - 1) now
                              (new_oid (map am_id (autoMessages st))) pairs
         in insertMany autoMessages st))"


section \<open>Predicates on emitted events\<close>

fun is_message_sent :: "payload \<Rightarrow> bool" where
  "is_message_sent (MessageSent k t d) = True"
| "is_message_sent other = False"

text \<open>The caller received \<open>message_sent\<close>: the send went through.\<close>

definition acknowledged :: "event list \<Rightarrow> bool" where
  "acknowledged evs = list_ex (\<lambda>ev. fst ev = ToCaller \<and> is_message_sent (snd ev)) evs"

fun is_error :: "payload \<Rightarrow> bool" where
  "is_error (Error msg) = True"
| "is_error (ErrorDetails msg err) = True"
| "is_error (FileSizeError msg actual limit mt) = True"
| "is_error other = False"

section \<open>Example data\<close>

definition ex_store :: store where
  "ex_store =
     \<lparr>messages = [],
      conversations =
        [\<lparr>c_id = 1, c_participants = [1, 2], c_type = Private, c_lastMessage = None,
          c_lastActivity = 0, c_isActive = True\<rparr>],
      autoMessages = [],
      users = [\<lparr>u_id = 1, u_isActive = True\<rparr>, \<lparr>u_id = 2, u_isActive = True\<rparr>,
               \<lparr>u_id = 3, u_isActive = True\<rparr>]\<rparr>"

definition ex_send :: send_payload where
  "ex_send =
     \<lparr>sp_conversationId = Canonical 1, sp_content = ascii ''hi'', sp_type = None,
      sp_messageId = ''m1'', sp_sessionId = ''s1'', sp_fileData = None\<rparr>"

definition ex_env :: env where
  "ex_env = \<lparr>e_now = 1000, e_uuid = ''uuid-1''\<rparr>"

definition ex_sent_store :: store where
  "ex_sent_store = fst (send_message ex_env 1 ex_send ex_store)"

definition ex_mark :: mark_payload where
  "ex_mark = \<lparr>mp_messageIds = Some [Canonical 1], mp_conversationId = Canonical 1, mp_sessionId = ''s2''\<rparr>"

definition ex_file :: file_payload where
  "ex_file =
     \<lparr>fp_name = Some (ascii ''photo.png''), fp_type = Some ''image/png'',
      fp_data = Some (''data:'' @ ''image/png'' @ '';base64,'' @ ''iVBORw0KGgo=''), fp_size = Some 7\<rparr>"

definition ex_send_file :: send_payload where
  "ex_send_file =
     \<lparr>sp_conversationId = Canonical 1, sp_content = ascii ''look at this'', sp_type = None,
      sp_messageId = ''m2'', sp_sessionId = ''s1'', sp_fileData = Some ex_file\<rparr>"











text \<open>A store with a planned AutoMessage whose recipient is not a user.\<close>

definition ex_store_orphan :: store where
  "ex_store_orphan =
     ex_store\<lparr>autoMessages :=
       [\<lparr>am_id = 1, am_sender = 1, am_recipient = 9, am_content = ascii ''Selam!'',
         am_sendDate = 500, am_isQueued = True, am_isSent = False, am_queuedAt = Some 600,
         am_sentAt = None, am_conversation = None\<rparr>]\<rparr>"

section \<open>Concurrent mark-as-read calls\<close>

text \<open>Every message has at most one \<open>readBy\<close> entry per user.\<close>

definition readBy_unique :: "store \<Rightarrow> bool" where
  "readBy_unique st = list_all (\<lambda>m. distinct (map rb_user (m_readBy m))) (messages st)"

text \<open>
  One atomic unit of a mark-as-read call: the filter and update of the handler's
  \<open>updateMany\<close>, or of \<open>markMultipleAsRead\<close>, on the document at one position.
  Calls that run concurrently are an arbitrary list of such units.
\<close>

datatype read_unit =
    HandlerUnit env oid "oid list" oid string nat
  | StaticUnit env oid "oid list" string nat

fun apply_read_unit :: "read_unit \<Rightarrow> store \<Rightarrow> store" where
  "apply_read_unit (HandlerUnit e uid ids c sid i) st =
     update_doc (read_filter ids c uid) (read_update uid (e_now e) sid) i st"
| "apply_read_unit (StaticUnit e uid ids sid i) st =
     update_doc (\<lambda>m. m_id m \<in> set ids \<and> uid \<notin> set (map rb_user (m_readBy m)))
                (read_update uid (e_now e) sid) i st"

definition ex_read_units :: "read_unit list" where
  "ex_read_units =
     [HandlerUnit (ex_env\<lparr>e_now := 1050\<rparr>) 2 [1] 1 ''s2'' 0,
      HandlerUnit (ex_env\<lparr>e_now := 1051\<rparr>) 2 [1] 1 ''s3'' 0,
      StaticUnit (ex_env\<lparr>e_now := 1052\<rparr>) 2 [1] ''s4'' 0]"

section \<open>Interleavings of the operations on delivery status\<close>

text \<open>
  The three operations that write \<open>metadata.deliveryStatus\<close>, as steps on the
  database: a send, the deferred promotion of the message with a given \<open>_id\<close>, and a
  mark-as-read. An interleaving is a list of such steps.
\<close>

datatype operation =
    OpSend env oid send_payload
  | OpPromote env oid "oid list" client_id oid
  | OpMarkRead env oid mark_payload

fun apply_op :: "operation \<Rightarrow> store \<Rightarrow> store" where
  "apply_op (OpSend e uid p) st = fst (send_message e uid p st)"
| "apply_op (OpPromote e uid ps cid mid) st = fst (promote_delivered e uid ps cid mid st)"
| "apply_op (OpMarkRead e uid p) st = fst (mark_messages_read e uid p st)"

definition status_of :: "oid \<Rightarrow> store \<Rightarrow> delivery_status option" where
  "status_of mid st = map_option m_deliveryStatus (find (\<lambda>m. m_id m = mid) (messages st))"

text \<open>The status of message \<open>mid\<close> before the first step and after every step.\<close>

fun status_trace :: "oid \<Rightarrow> operation list \<Rightarrow> store \<Rightarrow> delivery_status option list" where
  "status_trace mid [] st = [status_of mid st]"
| "status_trace mid (x # ops) st = status_of mid st # status_trace mid ops (apply_op x st)"

fun is_mark_read :: "operation \<Rightarrow> bool" where
  "is_mark_read (OpMarkRead e uid p) = True"
| "is_mark_read other = False"

fun is_promotion_of :: "oid \<Rightarrow> operation \<Rightarrow> bool" where
  "is_promotion_of mid (OpPromote e uid ps cid mid') = (mid' = mid)"
| "is_promotion_of mid other = False"

text \<open>No promotion of message \<open>mid\<close> is applied while the status of \<open>mid\<close> is \<open>read\<close>.\<close>

fun no_promotion_while_read :: "oid \<Rightarrow> operation list \<Rightarrow> store \<Rightarrow> bool" where
  "no_promotion_while_read mid [] st = True"
| "no_promotion_while_read mid (x # ops) st =
     ((is_promotion_of mid x \<longrightarrow> status_of mid st \<noteq> Some Read)
      \<and> no_promotion_while_read mid ops (apply_op x st))"

definition ex_ops :: "operation list" where
  "ex_ops =
     [OpMarkRead (ex_env\<lparr>e_now := 1050\<rparr>) 2 ex_mark,
      OpPromote (ex_env\<lparr>e_now := 1100\<rparr>) 1 [1, 2] (Canonical 1) 1]"

text \<open>A mark-as-read by user 3, who is not in the conversation, before the promotion.\<close>

definition ex_ops_outsider :: "operation list" where
  "ex_ops_outsider =
     [OpMarkRead (ex_env\<lparr>e_now := 1050\<rparr>) 3 ex_mark,
      OpPromote (ex_env\<lparr>e_now := 1100\<rparr>) 1 [1, 2] (Canonical 1) 1]"

definition ex_ops_ordered :: "operation list" where
  "ex_ops_ordered =
     [OpPromote (ex_env\<lparr>e_now := 1100\<rparr>) 1 [1, 2] (Canonical 1) 1,
      OpMarkRead (ex_env\<lparr>e_now := 1150\<rparr>) 2 ex_mark]"

section \<open>All modelled entry points\<close>

text \<open>
  A call of one of the modelled entry points, with what it reads from outside the
  database; \<open>apply_call\<close> is its effect on the database.
\<close>

datatype handler_call =
    CallSend env oid send_payload
  | CallPromote env oid "oid list" client_id oid
  | CallMarkRead env oid mark_payload
  | CallMarkMultiple env "oid list" oid string
  | CallDelete env oid delete_payload
  | CallDeleteMultiple env oid bulk_delete_payload
  | CallConsume env work_item
  | CallPlan "nat \<Rightarrow> real" int

fun apply_call :: "handler_call \<Rightarrow> store \<Rightarrow> store" where
  "apply_call (CallSend e uid p) st = fst (send_message e uid p st)"
| "apply_call (CallPromote e uid ps cid mid) st = fst (promote_delivered e uid ps cid mid st)"
| "apply_call (CallMarkRead e uid p) st = fst (mark_messages_read e uid p st)"
| "apply_call (CallMarkMultiple e ids uid sid) st = fst (markMultipleAsRead e ids uid sid st)"
| "apply_call (CallDelete e uid p) st = fst (delete_message e uid p st)"
| "apply_call (CallDeleteMultiple e uid p) st = fst (delete_multiple_messages e uid p st)"
| "apply_call (CallConsume e item) st = fst (consume e item st)"
| "apply_call (CallPlan rnd now) st = planAutomaticMessages rnd now st"

text \<open>The message with \<open>_id = mid\<close> exists and is deleted for everyone.\<close>

definition is_deleted :: "oid \<Rightarrow> store \<Rightarrow> bool" where
  "is_deleted mid st =
     (case find (\<lambda>m. m_id m = mid) (messages st) of None \<Rightarrow> False | Some m \<Rightarrow> m_isDeleted m)"

definition minutes :: "int \<Rightarrow> int" where
  "minutes n = n * 60 * 1000"

definition ex_delete :: delete_payload where
  "ex_delete = \<lparr>dp_messageId = Canonical 1, dp_deleteType = ''forEveryone'', dp_conversationId = Canonical 1\<rparr>"

fun is_deleted_for_everyone_event :: "payload \<Rightarrow> bool" where
  "is_deleted_for_everyone_event (MessageDeletedForEveryone mid uid t) = True"
| "is_deleted_for_everyone_event other = False"

definition ex_message :: message where
  "ex_message = hd (messages ex_sent_store)"

definition ex_conversation :: conversation where
  "ex_conversation = hd (conversations ex_sent_store)"

section \<open>Reading the result of a bulk delete\<close>

text \<open>The first stored message with \<open>_id = i\<close>.\<close>

definition lookup :: "store \<Rightarrow> oid \<Rightarrow> message option" where
  "lookup st i = find (\<lambda>m. m_id m = i) (messages st)"

text \<open>
  The id casts, the message exists, and the string of its conversation id is the
  conversation id string of the request.
\<close>

definition deletable :: "store \<Rightarrow> client_id \<Rightarrow> client_id \<Rightarrow> bool" where
  "deletable st cid mid =
     (case cast_oid mid of
        None \<Rightarrow> False
      | Some i \<Rightarrow>
          (case lookup st i of None \<Rightarrow> False | Some m \<Rightarrow> oid_toString (m_conversation m) = cid))"

text \<open>What delete-for-me does to one message: one \<open>deletedFor\<close> entry for the user, once.\<close>

definition delete_for_me_doc :: "oid \<Rightarrow> int \<Rightarrow> message \<Rightarrow> message" where
  "delete_for_me_doc uid t m =
     (if uid \<in> set (map df_user (m_deletedFor m)) then m
      else m\<lparr>m_deletedFor := m_deletedFor m @ [\<lparr>df_user = uid, df_deletedAt = t, df_deleteType = ForMe\<rparr>]\<rparr>)"

definition ex_bulk :: bulk_delete_payload where
  "ex_bulk = \<lparr>bd_messageIds = Some [Malformed, Canonical 1, Canonical 7], bd_conversationId = Canonical 1\<rparr>"

text \<open>The same id twice.\<close>

definition ex_bulk_twice :: bulk_delete_payload where
  "ex_bulk_twice = \<lparr>bd_messageIds = Some [Canonical 1, Canonical 1], bd_conversationId = Canonical 1\<rparr>"

text \<open>The conversation named by a string that casts to its id but is not the canonical one.\<close>

definition ex_bulk_noncanonical :: bulk_delete_payload where
  "ex_bulk_noncanonical = \<lparr>bd_messageIds = Some [Canonical 1], bd_conversationId = NonCanonical 1\<rparr>"
section \<open>Verified properties\<close>

subsection \<open>Sending\<close>

lemma pre_save_fileData_fields [simp]:
  "m_id (pre_save_fileData m) = m_id m"
  "m_sender (pre_save_fileData m) = m_sender m"
  "m_conversation (pre_save_fileData m) = m_conversation m"
  "m_content (pre_save_fileData m) = m_content m"
  "m_type (pre_save_fileData m) = m_type m"
  "m_messageId (pre_save_fileData m) = m_messageId m"
  "m_readBy (pre_save_fileData m) = m_readBy m"
  "m_deletedFor (pre_save_fileData m) = m_deletedFor m"
  "m_isDeleted (pre_save_fileData m) = m_isDeleted m"
  "m_deliveryStatus (pre_save_fileData m) = m_deliveryStatus m"
  "m_createdAt (pre_save_fileData m) = m_createdAt m"
  by (simp_all add: pre_save_fileData_def)

lemma save_new_message_InrD:
  assumes "save_new_message u st m = Inr (st1, m2)"
  shows "st1 = st\<lparr>messages := messages st @ [m2]\<rparr>"
    and "\<forall>x \<in> set (messages st). m_messageId x \<noteq> m_messageId m2"
    and "m_messageId m2 = (if truthy (m_messageId m) then m_messageId m else u)"
    and "m2 = pre_save_fileData (m\<lparr>m_content := trim (m_content m), m_messageId := m_messageId m2\<rparr>)"
    and "validate_message (m\<lparr>m_content := trim (m_content m)\<rparr>)"
  using assms
  by (auto simp: save_new_message_def pre_save_fileData_def Let_def split: if_splits)

lemma save_new_message_duplicate:
  assumes "\<exists>x \<in> set (messages st). m_messageId x = m_messageId m" and "truthy (m_messageId m)"
  shows "\<exists>err. save_new_message u st m = Inl err"
  using assms by (auto simp: save_new_message_def Let_def)

lemma send_message_unchanged_or_persisted:
  "fst (send_message e uid p st) = st \<or>
   (\<exists>cv st1 saved. find_conversation st (sp_conversationId p) uid = Inr (Some cv)
       \<and> save_new_message (e_uuid e) st (messageData_of e uid (c_id cv) p st) = Inr (st1, saved)
       \<and> send_message e uid p st =
            (touch_conversation (c_id cv) (m_id saved) (e_now e) st1,
             [(ToRoom (ConversationRoom (sp_conversationId p)), MessageReceived saved (c_id cv)),
              (ToCaller, MessageSent (key_of (sp_messageId p) (m_id saved)) (m_createdAt saved) Sent)]))"
  by (auto simp: send_message_def send_in_conversation_def persist_message_def
           split: sum.splits option.splits prod.splits)

lemma oversize_of_SomeD:
  "oversize_of p = Some x \<Longrightarrow> \<exists>a b c d. x = FileSizeError a b c d"
  by (auto simp: oversize_of_def file_size_error_def Let_def split: if_splits option.splits)

lemma send_message_acknowledgedD:
  assumes "acknowledged (snd (send_message e uid p st))"
  shows "\<exists>cv st1 saved. find_conversation st (sp_conversationId p) uid = Inr (Some cv)
       \<and> oversize_of p = None
       \<and> \<not> (trim (messageContent_of p) = [] \<and> \<not> has_file_data (sp_fileData p))
       \<and> truthy (sp_sessionId p)
       \<and> save_new_message (e_uuid e) st (messageData_of e uid (c_id cv) p st) = Inr (st1, saved)
       \<and> send_message e uid p st =
            (touch_conversation (c_id cv) (m_id saved) (e_now e) st1,
             [(ToRoom (ConversationRoom (sp_conversationId p)), MessageReceived saved (c_id cv)),
              (ToCaller, MessageSent (key_of (sp_messageId p) (m_id saved)) (m_createdAt saved) Sent)])"
  using assms
  by (auto simp: send_message_def send_in_conversation_def persist_message_def acknowledged_def
           dest: oversize_of_SomeD
           split: sum.splits option.splits prod.splits if_splits)

lemma send_message_duplicate_key:
  assumes "\<exists>x \<in> set (messages st). m_messageId x = sp_messageId p" and "truthy (sp_messageId p)"
  shows "fst (send_message e uid p st) = st"
proof -
  have "\<exists>err. save_new_message (e_uuid e) st (messageData_of e uid c p st) = Inl err" for c
    using assms by (intro save_new_message_duplicate) (auto simp: messageData_of_def)
  then show ?thesis
    using send_message_unchanged_or_persisted [of e uid p st] by (metis sum.distinct(1))
qed

lemma find_map_touch:
  "find (\<lambda>cv. c_id cv = k \<and> uid \<in> set (c_participants cv))
          (map (\<lambda>cv. if c_id cv = c then cv\<lparr>c_lastMessage := Some mid, c_lastActivity := t\<rparr> else cv) xs)
        = map_option (\<lambda>cv. if c_id cv = c then cv\<lparr>c_lastMessage := Some mid, c_lastActivity := t\<rparr> else cv)
            (find (\<lambda>cv. c_id cv = k \<and> uid \<in> set (c_participants cv)) xs)"
  by (induction xs) auto

lemma find_conversation_touch:
  "find_conversation (touch_conversation c mid t st) cid uid =
   map_sum id (map_option (\<lambda>cv. if c_id cv = c then cv\<lparr>c_lastMessage := Some mid, c_lastActivity := t\<rparr> else cv))
     (find_conversation st cid uid)"
  by (simp add: find_conversation_def touch_conversation_def find_map_touch split: option.splits)

lemma touch_conversation_lastActivity:
  assumes "x \<in> set (conversations (touch_conversation c mid t st))" and "c_id x = c"
  shows "c_lastActivity x = t"
proof -
  from assms(1)
  have "x \<in> (\<lambda>cv. if c_id cv = c then cv\<lparr>c_lastMessage := Some mid, c_lastActivity := t\<rparr> else cv)
              ` set (conversations st)"
    by (simp add: touch_conversation_def)
  then obtain y where y: "x = (if c_id y = c then y\<lparr>c_lastMessage := Some mid, c_lastActivity := t\<rparr> else y)"
    by blast
  show ?thesis
  proof (cases "c_id y = c")
    case True
    with y show ?thesis by simp
  next
    case False
    with y have "x = y" by simp
    with False assms(2) show ?thesis by simp
  qed
qed

lemma save_duplicate_valid:
  assumes "validate_message (m\<lparr>m_content := trim (m_content m)\<rparr>)"
      and "truthy (m_messageId m)"
      and "\<exists>x \<in> set (messages st). m_messageId x = m_messageId m"
  shows "save_new_message u st m = Inl DuplicateKeyError"
  using assms by (simp add: save_new_message_def Let_def)

lemma validate_message_cong:
  "m_content m = m_content m' \<Longrightarrow> m_type m = m_type m' \<Longrightarrow> validate_message m = validate_message m'"
  by (simp add: validate_message_def)

lemma messageData_of_fields:
  "m_content (messageData_of e uid c p st) = trim (messageContent_of p)"
  "m_type (messageData_of e uid c p st) = messageType_of p"
  "m_messageId (messageData_of e uid c p st) = (if truthy (sp_messageId p) then sp_messageId p else e_uuid e)"
  by (simp_all add: messageData_of_def)

lemma send_message_retry:
  assumes fc: "find_conversation st (sp_conversationId p) uid = Inr (Some cv)"
    and nov: "oversize_of p = None"
    and nonempty: "\<not> (trim (messageContent_of p) = [] \<and> \<not> has_file_data (sp_fileData p))"
    and sess: "truthy (sp_sessionId p)"
    and key: "truthy (sp_messageId p)"
    and val: "validate_message ((messageData_of e0 uid0 c0 p st0)\<lparr>m_content := trim (m_content (messageData_of e0 uid0 c0 p st0))\<rparr>)"
    and dup: "\<exists>x \<in> set (messages st). m_messageId x = sp_messageId p"
  shows "send_message e uid p st = (st, [(ToCaller, ErrorDetails ''Error sending message'' DuplicateKeyError)])"
proof -
  let ?m = "messageData_of e uid (c_id cv) p st"
  have v: "validate_message (?m\<lparr>m_content := trim (m_content ?m)\<rparr>)"
    using val validate_message_cong [of "?m\<lparr>m_content := trim (m_content ?m)\<rparr>"
        "(messageData_of e0 uid0 c0 p st0)\<lparr>m_content := trim (m_content (messageData_of e0 uid0 c0 p st0))\<rparr>"]
    by (simp add: messageData_of_fields)
  have "save_new_message (e_uuid e) st ?m = Inl DuplicateKeyError"
    using v key dup by (intro save_duplicate_valid) (simp_all add: messageData_of_fields)
  then show ?thesis
    using fc nov nonempty sess
    by (simp add: send_message_def send_in_conversation_def persist_message_def)
qed


text \<open>
  Claim C1 (idempotent send). When a \<open>send_message\<close> that carries a client key was
  acknowledged with \<open>message_sent\<close>, the database holds exactly one message with that
  key and the conversation's \<open>lastActivity\<close> is the time of that send. Any later
  \<open>send_message\<close> with the same key, from any caller and with any other fields, leaves
  the database as it is, so there is no second message and no second bump; the retry of
  the same payload by the same caller is answered with the error event of the
  \<open>catch\<close> block, raised by the unique index on \<open>messageId\<close>.
\<close>

theorem idempotent_send:
  assumes key: "truthy (sp_messageId p)"
      and ack: "acknowledged (snd (send_message e uid p st))"
  shows "length (filter (\<lambda>m. m_messageId m = sp_messageId p)
                        (messages (fst (send_message e uid p st)))) = 1
       \<and> (\<forall>cv \<in> set (conversations (fst (send_message e uid p st))).
             cast_oid (sp_conversationId p) = Some (c_id cv) \<longrightarrow> c_lastActivity cv = e_now e)
       \<and> (\<forall>e' uid' p'. sp_messageId p' = sp_messageId p \<longrightarrow>
             fst (send_message e' uid' p' (fst (send_message e uid p st)))
               = fst (send_message e uid p st))
       \<and> (\<forall>e'. send_message e' uid p (fst (send_message e uid p st))
               = (fst (send_message e uid p st),
                  [(ToCaller, ErrorDetails ''Error sending message'' DuplicateKeyError)]))"
proof -
  from send_message_acknowledgedD [OF ack] obtain cv st1 saved where
    fc: "find_conversation st (sp_conversationId p) uid = Inr (Some cv)"
    and nov: "oversize_of p = None"
    and nonempty: "\<not> (trim (messageContent_of p) = [] \<and> \<not> has_file_data (sp_fileData p))"
    and sess: "truthy (sp_sessionId p)"
    and sv: "save_new_message (e_uuid e) st (messageData_of e uid (c_id cv) p st) = Inr (st1, saved)"
    and res: "send_message e uid p st =
            (touch_conversation (c_id cv) (m_id saved) (e_now e) st1,
             [(ToRoom (ConversationRoom (sp_conversationId p)), MessageReceived saved (c_id cv)),
              (ToCaller, MessageSent (key_of (sp_messageId p) (m_id saved)) (m_createdAt saved) Sent)])"
    by blast
  define st2 where "st2 = touch_conversation (c_id cv) (m_id saved) (e_now e) st1"
  have fst_res: "fst (send_message e uid p st) = st2"
    by (simp add: res st2_def)
  note d = save_new_message_InrD [OF sv]
  have kid: "m_messageId saved = sp_messageId p"
    using d(3) key by (simp add: messageData_of_fields)
  have msgs: "messages st2 = messages st @ [saved]"
    unfolding st2_def by (subst d(1)) (simp add: touch_conversation_def)
  have fresh: "\<forall>x \<in> set (messages st). m_messageId x \<noteq> sp_messageId p"
    using d(2) kid by simp
  have "filter (\<lambda>m. m_messageId m = sp_messageId p) (messages st) = []"
    using fresh by (simp add: filter_empty_conv)
  then have one: "length (filter (\<lambda>m. m_messageId m = sp_messageId p) (messages st2)) = 1"
    using kid by (simp add: msgs)
  have cid: "cast_oid (sp_conversationId p) = Some (c_id cv)"
    using fc by (auto simp: find_conversation_def find_Some_iff split: option.splits)
  have bump: "\<forall>c \<in> set (conversations st2).
             cast_oid (sp_conversationId p) = Some (c_id c) \<longrightarrow> c_lastActivity c = e_now e"
  proof (intro ballI impI)
    fix c assume a: "c \<in> set (conversations st2)" and b: "cast_oid (sp_conversationId p) = Some (c_id c)"
    from b cid have "c_id c = c_id cv"
      by (metis option.inject)
    then show "c_lastActivity c = e_now e"
      by (rule touch_conversation_lastActivity [OF a [unfolded st2_def]])
  qed
  have dup: "\<exists>x \<in> set (messages st2). m_messageId x = sp_messageId p"
    using kid by (simp add: msgs)
  have noop: "\<forall>e' uid' p'. sp_messageId p' = sp_messageId p \<longrightarrow> fst (send_message e' uid' p' st2) = st2"
  proof (intro allI impI)
    fix e' uid' and p' :: send_payload
    assume eq: "sp_messageId p' = sp_messageId p"
    show "fst (send_message e' uid' p' st2) = st2"
      using dup key by (intro send_message_duplicate_key) (simp_all add: eq)
  qed
  have fc1: "find_conversation st1 (sp_conversationId p) uid = Inr (Some cv)"
    using fc by (subst d(1)) (simp add: find_conversation_def split: option.splits)
  have fc2: "find_conversation st2 (sp_conversationId p) uid
               = Inr (Some (cv\<lparr>c_lastMessage := Some (m_id saved), c_lastActivity := e_now e\<rparr>))"
    by (simp add: st2_def find_conversation_touch fc1)
  have retry: "\<forall>e'. send_message e' uid p st2
                 = (st2, [(ToCaller, ErrorDetails ''Error sending message'' DuplicateKeyError)])"
    using send_message_retry [OF fc2 nov nonempty sess key d(5) dup] by blast
  show ?thesis
    unfolding fst_res using one bump noop retry by (intro conjI)
qed

theorem idempotent_send_witness:
  "truthy (sp_messageId ex_send)
   \<and> acknowledged (snd (send_message ex_env 1 ex_send ex_store))
   \<and> length (filter (\<lambda>m. m_messageId m = ''m1'')
                     (messages (fst (send_message ex_env 1 ex_send ex_store)))) = 1
   \<and> send_message (ex_env\<lparr>e_now := 2000\<rparr>) 1 ex_send (fst (send_message ex_env 1 ex_send ex_store))
       = (fst (send_message ex_env 1 ex_send ex_store),
          [(ToCaller, ErrorDetails ''Error sending message'' DuplicateKeyError)])"
proof -
  have k: "truthy (sp_messageId ex_send)"
    by (simp add: truthy_def ex_send_def)
  have a: "acknowledged (snd (send_message ex_env 1 ex_send ex_store))"
    by code_simp
  have m: "sp_messageId ex_send = ''m1''"
    by (simp add: ex_send_def)
  note t = idempotent_send [OF k a, unfolded m]
  show ?thesis
    using k a t by (intro conjI) (simp_all only: simp_thms)
qed

subsection \<open>Trimming and the persisted message\<close>

lemma dropWhile_id: "xs = [] \<or> \<not> P (hd xs) \<Longrightarrow> dropWhile P xs = xs"
  by (cases xs) auto

lemma last_dropWhile: "dropWhile P xs \<noteq> [] \<Longrightarrow> last (dropWhile P xs) = last xs"
  by (induction xs) (auto split: if_splits)

lemma trim_idem: "trim (trim s) = trim s"
proof -
  define a where "a = dropWhile is_space s"
  define b where "b = dropWhile is_space (rev a)"
  have t: "trim s = rev b" by (simp add: trim_def a_def b_def)
  have "dropWhile is_space (rev b) = rev b"
  proof (cases "b = []")
    case True then show ?thesis by simp
  next
    case False
    then have "last b = last (rev a)" unfolding b_def by (rule last_dropWhile)
    moreover from False have an: "a \<noteq> []" by (auto simp: b_def)
    ultimately have "hd (rev b) = hd a" using False by (simp add: hd_rev last_rev)
    moreover have "\<not> is_space (hd a)" using an unfolding a_def by (rule hd_dropWhile)
    ultimately show ?thesis using False by (intro dropWhile_id) simp
  qed
  moreover have "dropWhile is_space b = b" by (simp add: b_def)
  ultimately have "trim (rev b) = rev b" by (simp add: trim_def)
  then show ?thesis by (simp only: t)
qed


lemma persist_message_content:
  "fst (persist_message e uid cv p st) = st \<or>
   (\<exists>m. messages (fst (persist_message e uid cv p st)) = messages st @ [m]
        \<and> m_content m = trim (messageContent_of p) \<and> m_type m = messageType_of p
        \<and> m_sender m = uid \<and> m_conversation m = c_id cv)"
proof (cases "save_new_message (e_uuid e) st (messageData_of e uid (c_id cv) p st)")
  case (Inl err)
  then show ?thesis by (simp add: persist_message_def)
next
  case (Inr r)
  obtain st1 saved where r: "r = (st1, saved)" by (cases r)
  note d = save_new_message_InrD [OF Inr [unfolded r]]
  have "messages (fst (persist_message e uid cv p st)) = messages st @ [saved]"
    using Inr r by (simp add: persist_message_def touch_conversation_def d(1))
  moreover have "m_content saved = trim (messageContent_of p)" "m_type saved = messageType_of p"
    "m_sender saved = uid" "m_conversation saved = c_id cv"
    by (subst d(4), simp add: messageData_of_def trim_idem)+
  ultimately show ?thesis by blast
qed

subsection \<open>Callers outside the conversation\<close>





subsection \<open>Measuring a file payload\<close>

lemma includes_str_append: "includes_str (xs @ p @ ys) p"
proof (induction xs)
  case Nil
  have sw: "startsWith (p @ ys) p" by (simp add: startsWith_def)
  show ?case
  proof (cases "p @ ys")
    case Nil
    then show ?thesis by simp
  next
    case (Cons a list)
    with sw show ?thesis by (metis append_Nil includes_str.simps(2))
  qed
next
  case (Cons x xs)
  then show ?case by simp
qed

lemma dropWhile_no_comma:
  "CHR '','' \<notin> set xs \<Longrightarrow> dropWhile (\<lambda>c. c \<noteq> CHR '','') (xs @ CHR '','' # ys) = CHR '','' # ys"
  by (induction xs) auto

lemma takeWhile_no_comma:
  "CHR '','' \<notin> set ys \<Longrightarrow> takeWhile (\<lambda>c. c \<noteq> CHR '','') ys = ys"
  by (induction ys) auto

lemma base64Data_of_data_url:
  assumes d: "fp_data f = Some (''data:'' @ m @ '';base64,'' @ b)"
      and m: "CHR '','' \<notin> set m" and b: "CHR '','' \<notin> set b"
  shows "fixedFileData_of f = ''data:'' @ m @ '';base64,'' @ b" and "base64Data_of f = b"
proof -
  let ?d = "''data:'' @ m @ '';base64,'' @ b"
  have i: "includes_str ?d '';base64,''"
    using includes_str_append [of "''data:'' @ m" "'';base64,''" b] by simp
  have s: "startsWith ?d ''data:''"
    by (simp add: startsWith_def)
  show fx: "fixedFileData_of f = ?d"
    using i s by (simp add: fixedFileData_of_def d Let_def)
  have c: "includes_str ?d '',''"
    using includes_str_append [of "''data:'' @ m @ '';base64''" "'',''" b] by simp
  have "dropWhile (\<lambda>c. c \<noteq> CHR '','') ((''data:'' @ m @ '';base64'') @ CHR '','' # b) = CHR '','' # b"
    using m by (intro dropWhile_no_comma) simp
  then have "split_comma_1 ?d = b"
    using b by (simp add: split_comma_1_def takeWhile_no_comma)
  then show "base64Data_of f = b"
    using c by (simp add: base64Data_of_def fx Let_def)
qed

lemma fixedFileData_of_data_url: "startsWith (fixedFileData_of f) ''data:''"
  by (simp add: fixedFileData_of_def Let_def startsWith_def)

lemma classify_cases:
  "classify t = ''image'' \<or> classify t = ''video'' \<or> classify t = ''audio'' \<or> classify t = ''file''"
  by (simp add: classify_def)



lemma ex_store_conversation:
  "find_conversation ex_store (Canonical 1) 1 =
     Inr (Some \<lparr>c_id = 1, c_participants = [1, 2], c_type = Private, c_lastMessage = None,
                 c_lastActivity = 0, c_isActive = True\<rparr>)"
  by (simp add: find_conversation_def ex_store_def)

lemma ex_file_size: "actualFileSize_of ex_file = 9"
proof -
  have "base64Data_of ex_file = ''iVBORw0KGgo=''"
    by (rule base64Data_of_data_url(2) [where m = "''image/png''"]) (simp_all add: ex_file_def)
  then show ?thesis by (simp add: actualFileSize_of_def round_div_def)
qed

lemma ex_send_file_facts:
  "messageType_of ex_send_file = ''image''"
  "messageContent_of ex_send_file = ascii ''photo.png''"
  "oversize_of ex_send_file = None"
  "has_file_data (sp_fileData ex_send_file)"
proof -
  show 1: "messageType_of ex_send_file = ''image''"
    by (simp add: messageType_of_def ex_send_file_def ex_file_def truthy_opt_def truthy_def
                  classify_def startsWith_def)
  show "messageContent_of ex_send_file = ascii ''photo.png''"
    by (simp add: messageContent_of_def ex_send_file_def ex_file_def truthy_opt_def truthy_def or_else_def
                  ascii_def)
  show 4: "has_file_data (sp_fileData ex_send_file)"
    by (simp add: has_file_data_def ex_send_file_def ex_file_def truthy_opt_def truthy_def)
  have "maxSize_of ''image'' = Some 10485760"
    by (simp add: maxSize_of_def maxSizes_def)
  moreover have "the (sp_fileData ex_send_file) = ex_file" by (simp add: ex_send_file_def)
  ultimately show "oversize_of ex_send_file = None"
    using 4 by (simp add: oversize_of_def 1 ex_file_size)
qed

lemma trim_photo: "trim (ascii ''photo.png'') = ascii ''photo.png''"
  by (simp add: trim_def is_space_def ascii_def)

lemma send_message_succeeds:
  assumes sess: "truthy (sp_sessionId p)"
      and fc: "find_conversation st (sp_conversationId p) uid = Inr (Some cv)"
      and nov: "oversize_of p = None"
      and ne: "trim (messageContent_of p) \<noteq> []"
      and len: "length (trim (messageContent_of p)) \<le> 2000"
      and ty: "messageType_of p \<in> set message_types"
      and key: "truthy (sp_messageId p)"
      and fresh: "\<forall>x \<in> set (messages st). m_messageId x \<noteq> sp_messageId p"
  shows "acknowledged (snd (send_message e uid p st))"
proof -
  let ?m = "messageData_of e uid (c_id cv) p st"
  have v: "validate_message (?m\<lparr>m_content := trim (m_content ?m)\<rparr>)"
    using ne len ty by (simp add: validate_message_def messageData_of_fields trim_idem)
  have "\<exists>r. save_new_message (e_uuid e) st ?m = Inr r"
    using v key fresh by (simp add: save_new_message_def Let_def messageData_of_fields)
  then obtain st1 saved where "save_new_message (e_uuid e) st ?m = Inr (st1, saved)"
    by auto
  then show ?thesis
    using sess fc nov ne
    by (simp add: send_message_def send_in_conversation_def persist_message_def acknowledged_def)
qed

lemma ex_send_file_acknowledged: "acknowledged (snd (send_message ex_env 1 ex_send_file ex_store))"
proof (rule send_message_succeeds)
  show "truthy (sp_sessionId ex_send_file)" by (simp add: ex_send_file_def truthy_def)
  show "find_conversation ex_store (sp_conversationId ex_send_file) 1 =
     Inr (Some \<lparr>c_id = 1, c_participants = [1, 2], c_type = Private, c_lastMessage = None,
                 c_lastActivity = 0, c_isActive = True\<rparr>)"
    using ex_store_conversation by (simp add: ex_send_file_def)
  show "oversize_of ex_send_file = None" by (rule ex_send_file_facts)
  show "trim (messageContent_of ex_send_file) \<noteq> []"
    by (simp add: ex_send_file_facts trim_photo) (simp add: ascii_def)
  show "length (trim (messageContent_of ex_send_file)) \<le> 2000"
    by (simp add: ex_send_file_facts trim_photo) (simp add: ascii_def)
  show "messageType_of ex_send_file \<in> set message_types" by (simp add: ex_send_file_facts message_types_def)
  show "truthy (sp_messageId ex_send_file)" by (simp add: ex_send_file_def truthy_def)
  show "\<forall>x \<in> set (messages ex_store). m_messageId x \<noteq> sp_messageId ex_send_file"
    by (simp add: ex_store_def)
qed

subsection \<open>Content of a message with a file\<close>

lemma send_message_acknowledged_message:
  assumes "acknowledged (snd (send_message e uid p st))"
  shows "\<exists>m. messages (fst (send_message e uid p st)) = messages st @ [m]
           \<and> m_content m = trim (messageContent_of p) \<and> m_type m = messageType_of p"
proof -
  from send_message_acknowledgedD [OF assms] obtain cv st1 saved where
    fc: "find_conversation st (sp_conversationId p) uid = Inr (Some cv)"
    and nov: "oversize_of p = None"
    and nonempty: "\<not> (trim (messageContent_of p) = [] \<and> \<not> has_file_data (sp_fileData p))"
    and sess: "truthy (sp_sessionId p)"
    and sv: "save_new_message (e_uuid e) st (messageData_of e uid (c_id cv) p st) = Inr (st1, saved)"
    and res: "send_message e uid p st =
            (touch_conversation (c_id cv) (m_id saved) (e_now e) st1,
             [(ToRoom (ConversationRoom (sp_conversationId p)), MessageReceived saved (c_id cv)),
              (ToCaller, MessageSent (key_of (sp_messageId p) (m_id saved)) (m_createdAt saved) Sent)])"
    by blast
  note d = save_new_message_InrD [OF sv]
  have "messages (fst (send_message e uid p st)) = messages st @ [saved]"
    unfolding res fst_conv by (subst d(1)) (simp add: touch_conversation_def)
  moreover have "m_content saved = trim (messageContent_of p)" "m_type saved = messageType_of p"
    by (subst d(4), simp add: messageData_of_def trim_idem)+
  ultimately show ?thesis by blast
qed

lemma send_message_events:
  "snd (send_message e uid p st) = [(ToCaller, Error ''Session ID required'')]
   \<or> (\<exists>err. snd (send_message e uid p st) = [(ToCaller, ErrorDetails ''Error sending message'' err)])
   \<or> snd (send_message e uid p st) = [(ToCaller, Error ''Conversation not found'')]
   \<or> (\<exists>a b c d. snd (send_message e uid p st) = [(ToCaller, FileSizeError a b c d)])
   \<or> (snd (send_message e uid p st) = [(ToCaller, Error ''Message content or file required'')]
        \<and> \<not> has_file_data (sp_fileData p))
   \<or> (\<exists>r m c k t. snd (send_message e uid p st)
                       = [(ToRoom r, MessageReceived m c), (ToCaller, MessageSent k t Sent)])"
  by (auto simp: send_message_def send_in_conversation_def persist_message_def acknowledged_def
           dest: oversize_of_SomeD
           split: sum.splits option.splits prod.splits if_splits)

text \<open>
  Claim C10 (file name replaces the text). For a send whose file payload has data, the
  error \<open>Message content or file required\<close> is never emitted; and when the send is
  acknowledged, the one message added has as content the trimmed value of
  \<open>fileData.name || content || 'File'\<close>, which is the file's name whenever that name
  is not empty: the text sent along is not stored.
\<close>

theorem file_content_override:
  assumes fd: "sp_fileData p = Some f" and data: "truthy_opt (fp_data f)"
  shows "(ToCaller, Error ''Message content or file required'') \<notin> set (snd (send_message e uid p st))
       \<and> (acknowledged (snd (send_message e uid p st)) \<longrightarrow>
            (\<exists>m. messages (fst (send_message e uid p st)) = messages st @ [m]
                 \<and> m_content m = trim (or_else (fp_name f) (or_else (Some (sp_content p)) (ascii ''File'')))))
       \<and> (truthy_opt (fp_name f) \<longrightarrow>
            or_else (fp_name f) (or_else (Some (sp_content p)) (ascii ''File'')) = the (fp_name f))"
proof -
  have hf: "has_file_data (sp_fileData p)"
    using fd data by (simp add: has_file_data_def)
  have mc: "messageContent_of p = or_else (fp_name f) (or_else (Some (sp_content p)) (ascii ''File''))"
    using fd data by (simp add: messageContent_of_def)
  have 1: "(ToCaller, Error ''Message content or file required'') \<notin> set (snd (send_message e uid p st))"
    using send_message_events [of e uid p st] hf
    by auto
  have 2: "acknowledged (snd (send_message e uid p st)) \<longrightarrow>
            (\<exists>m. messages (fst (send_message e uid p st)) = messages st @ [m]
                 \<and> m_content m = trim (or_else (fp_name f) (or_else (Some (sp_content p)) (ascii ''File''))))"
    using send_message_acknowledged_message [of e uid p st] mc by auto
  have 3: "truthy_opt (fp_name f) \<longrightarrow>
            or_else (fp_name f) (or_else (Some (sp_content p)) (ascii ''File'')) = the (fp_name f)"
    by (auto simp: truthy_opt_def or_else_def split: option.splits)
  show ?thesis using 1 2 3 by (intro conjI)
qed

theorem file_content_override_witness:
  "sp_fileData ex_send_file = Some ex_file \<and> truthy_opt (fp_data ex_file)
   \<and> acknowledged (snd (send_message ex_env 1 ex_send_file ex_store))
   \<and> sp_content ex_send_file = ascii ''look at this''
   \<and> map m_content (messages (fst (send_message ex_env 1 ex_send_file ex_store))) = [ascii ''photo.png'']
   \<and> (ToCaller, Error ''Message content or file required'')
        \<notin> set (snd (send_message ex_env 1 ex_send_file ex_store))"
proof -
  have a: "sp_fileData ex_send_file = Some ex_file" by (simp add: ex_send_file_def)
  have b: "truthy_opt (fp_data ex_file)" by (simp add: ex_file_def truthy_opt_def truthy_def)
  have c: "acknowledged (snd (send_message ex_env 1 ex_send_file ex_store))"
    by (rule ex_send_file_acknowledged)
  have d: "sp_content ex_send_file = ascii ''look at this''" by (simp add: ex_send_file_def)
  note t = file_content_override [OF a b, of ex_env 1 ex_store]
  have n: "or_else (fp_name ex_file) (or_else (Some (sp_content ex_send_file)) (ascii ''File'')) = ascii ''photo.png''"
    by (simp add: or_else_def ex_file_def truthy_def ascii_def)
  from t c obtain m where
    m: "messages (fst (send_message ex_env 1 ex_send_file ex_store)) = messages ex_store @ [m]"
       "m_content m = trim (ascii ''photo.png'')"
    unfolding n by blast
  have e: "map m_content (messages (fst (send_message ex_env 1 ex_send_file ex_store))) = [ascii ''photo.png'']"
    by (simp only: m(1)) (simp add: ex_store_def m(2) trim_photo)
  show ?thesis
    using a b c d e t by (intro conjI) simp_all
qed


subsection \<open>File size limit\<close>










subsection \<open>Delivery status over interleavings\<close>

lemma find_append_Some: "find P xs = Some x \<Longrightarrow> find P (xs @ ys) = Some x"
  by (induction xs) (auto split: if_splits)

lemma find_map_same_id:
  assumes "\<And>x. m_id (g x) = m_id x"
  shows "find (\<lambda>m. m_id m = mid) (map g xs) = map_option g (find (\<lambda>m. m_id m = mid) xs)"
  by (induction xs) (simp_all add: assms)

lemma messages_send_message:
  "messages (fst (send_message e uid p st)) = messages st
   \<or> (\<exists>m. messages (fst (send_message e uid p st)) = messages st @ [m])"
proof -
  from send_message_unchanged_or_persisted [of e uid p st]
  show ?thesis
  proof
    assume "fst (send_message e uid p st) = st"
    then show ?thesis by simp
  next
    assume "\<exists>cv st1 saved. find_conversation st (sp_conversationId p) uid = Inr (Some cv)
       \<and> save_new_message (e_uuid e) st (messageData_of e uid (c_id cv) p st) = Inr (st1, saved)
       \<and> send_message e uid p st =
            (touch_conversation (c_id cv) (m_id saved) (e_now e) st1,
             [(ToRoom (ConversationRoom (sp_conversationId p)), MessageReceived saved (c_id cv)),
              (ToCaller, MessageSent (key_of (sp_messageId p) (m_id saved)) (m_createdAt saved) Sent)])"
    then obtain cv st1 saved where
      fc: "find_conversation st (sp_conversationId p) uid = Inr (Some cv)" and
      sv: "save_new_message (e_uuid e) st (messageData_of e uid (c_id cv) p st) = Inr (st1, saved)"
      and res: "send_message e uid p st =
            (touch_conversation (c_id cv) (m_id saved) (e_now e) st1,
             [(ToRoom (ConversationRoom (sp_conversationId p)), MessageReceived saved (c_id cv)),
              (ToCaller, MessageSent (key_of (sp_messageId p) (m_id saved)) (m_createdAt saved) Sent)])"
      by blast
    have "messages (fst (send_message e uid p st)) = messages st @ [saved]"
      unfolding res fst_conv by (subst save_new_message_InrD(1) [OF sv]) (simp add: touch_conversation_def)
    then show ?thesis by blast
  qed
qed

lemma status_of_send:
  assumes "status_of mid st = Some s"
  shows "status_of mid (fst (send_message e uid p st)) = Some s"
proof -
  from assms obtain m where m: "find (\<lambda>m. m_id m = mid) (messages st) = Some m" "m_deliveryStatus m = s"
    by (auto simp: status_of_def)
  from messages_send_message [of e uid p st] show ?thesis
    using m assms by (auto simp: status_of_def find_append_Some)
qed

lemma messages_mark_messages_read:
  "\<exists>f u. messages (fst (mark_messages_read e uid p st))
            = map (\<lambda>m. if f m then read_update u (e_now e) (mp_sessionId p) m else m) (messages st)"
proof -
  have id: "messages st = map (\<lambda>m. if False then read_update uid (e_now e) (mp_sessionId p) m else m) (messages st)"
    by simp
  show ?thesis
    by (auto simp: mark_messages_read_def mark_in_conversation_def updateMany_def Let_def
             split: option.splits sum.splits intro: exI [of _ "\<lambda>m. False"])
qed

lemma status_of_mark_read:
  assumes "status_of mid st = Some s"
  shows "status_of mid (fst (mark_messages_read e uid p st)) = Some s
       \<or> status_of mid (fst (mark_messages_read e uid p st)) = Some Read"
proof -
  from messages_mark_messages_read [of e uid p st] obtain f u where
    ms: "messages (fst (mark_messages_read e uid p st))
            = map (\<lambda>m. if f m then read_update u (e_now e) (mp_sessionId p) m else m) (messages st)"
    by blast
  have "find (\<lambda>m. m_id m = mid) (messages (fst (mark_messages_read e uid p st)))
      = map_option (\<lambda>m. if f m then read_update u (e_now e) (mp_sessionId p) m else m)
          (find (\<lambda>m. m_id m = mid) (messages st))"
    unfolding ms by (rule find_map_same_id) (simp add: read_update_def)
  moreover from assms obtain m where
    m: "find (\<lambda>m. m_id m = mid) (messages st) = Some m" "m_deliveryStatus m = s"
    by (auto simp: status_of_def)
  ultimately show ?thesis
    by (cases "f m") (simp_all add: status_of_def read_update_def)
qed

lemma status_of_promote:
  assumes "status_of mid st = Some s"
  shows "status_of mid (fst (promote_delivered e uid ps cid mid' st))
           = Some (if mid' = mid then Delivered else s)"
proof (cases "find (\<lambda>m. m_id m = mid') (messages st)")
  case None
  then have "mid' \<noteq> mid" using assms by (auto simp: status_of_def)
  with None assms show ?thesis by (simp add: promote_delivered_def)
next
  case (Some saved)
  let ?g = "\<lambda>m. if m_id m = mid' then m\<lparr>m_deliveryStatus := Delivered, m_deliveredAt := Some (e_now e)\<rparr> else m"
  have "messages (fst (promote_delivered e uid ps cid mid' st)) = map ?g (messages st)"
    using Some by (simp add: promote_delivered_def Let_def)
  moreover have "find (\<lambda>m. m_id m = mid) (map ?g (messages st))
      = map_option ?g (find (\<lambda>m. m_id m = mid) (messages st))"
    by (rule find_map_same_id) simp
  moreover from assms obtain m where
    m: "find (\<lambda>m. m_id m = mid) (messages st) = Some m" "m_deliveryStatus m = s"
    by (auto simp: status_of_def)
  moreover have "m_id m = mid"
    using m(1) by (auto simp: find_Some_iff)
  ultimately show ?thesis
    by (simp add: status_of_def)
qed


lemma status_trace_hd: "\<exists>rest. status_trace mid ops st = status_of mid st # rest"
  by (cases ops) simp_all

lemma remdups_adj_Cons_hd:
  "remdups_adj (x # y # ys) = (if x = y then remdups_adj (y # ys) else x # remdups_adj (y # ys))"
  by simp

lemma status_step:
  assumes "status_of mid st = Some s" and "is_promotion_of mid x \<longrightarrow> s \<noteq> Read"
      and "s \<noteq> Failed"
  shows "status_of mid (apply_op x st) = Some s
       \<or> (s = Sent \<and> status_of mid (apply_op x st) = Some Delivered)
       \<or> (s \<noteq> Read \<and> status_of mid (apply_op x st) = Some Read)"
proof (cases x)
  case (OpSend e uid p)
  then show ?thesis using status_of_send [OF assms(1)] by simp
next
  case (OpPromote e uid ps cid mid')
  show ?thesis
  proof (cases "mid' = mid")
    case False
    then show ?thesis using OpPromote status_of_promote [OF assms(1), of e uid ps cid mid'] by simp
  next
    case True
    then have nr: "s \<noteq> Read" using OpPromote assms(2) by simp
    have d: "status_of mid (apply_op x st) = Some Delivered"
      using True OpPromote status_of_promote [OF assms(1), of e uid ps cid mid'] by simp
    show ?thesis
    proof (cases s)
      case Sent
      then show ?thesis using d by simp
    next
      case Delivered
      then show ?thesis using d by simp
    next
      case Read
      then show ?thesis using nr by simp
    next
      case Failed
      then show ?thesis using assms(3) by simp
    qed
  qed
next
  case (OpMarkRead e uid p)
  then show ?thesis using status_of_mark_read [OF assms(1), of e uid p] by (cases "s = Read") auto
qed


lemma trace_guarded:
  assumes "status_of mid st = Some s" and "s \<noteq> Failed"
      and "no_promotion_while_read mid ops st"
  shows "subseq (remdups_adj (status_trace mid ops st))
           (case s of Sent \<Rightarrow> [Some Sent, Some Delivered, Some Read]
                    | Delivered \<Rightarrow> [Some Delivered, Some Read]
                    | Read \<Rightarrow> [Some Read]
                    | Failed \<Rightarrow> [])"
  using assms
proof (induction ops arbitrary: st s)
  case Nil
  then show ?case by (cases s) auto
next
  case (Cons x ops)
  have g: "is_promotion_of mid x \<longrightarrow> s \<noteq> Read"
    and rest: "no_promotion_while_read mid ops (apply_op x st)"
    using Cons.prems(1,3) by auto
  obtain tl where tl: "status_trace mid ops (apply_op x st) = status_of mid (apply_op x st) # tl"
    using status_trace_hd by blast
  from status_step [OF Cons.prems(1) g Cons.prems(2)]
  consider (same) "status_of mid (apply_op x st) = Some s"
    | (deliver) "s = Sent" "status_of mid (apply_op x st) = Some Delivered"
    | (read) "s \<noteq> Read" "status_of mid (apply_op x st) = Some Read"
    by blast
  then show ?case
  proof cases
    case same
    from Cons.IH [OF same Cons.prems(2) rest] show ?thesis
      using Cons.prems(1) same tl by (simp del: remdups_adj.simps add: remdups_adj_Cons_hd)
  next
    case deliver
    from Cons.IH [OF deliver(2) _ rest]
    have "subseq (remdups_adj (status_trace mid ops (apply_op x st))) [Some Delivered, Some Read]"
      by simp
    then show ?thesis
      using Cons.prems(1) deliver tl by (simp del: remdups_adj.simps add: remdups_adj_Cons_hd)
  next
    case read
    from Cons.IH [OF read(2) _ rest]
    have ih: "subseq (remdups_adj (status_trace mid ops (apply_op x st))) [Some Read]"
      by simp
    then have ih2: "subseq (remdups_adj (status_trace mid ops (apply_op x st))) [Some Delivered, Some Read]"
      by (rule list_emb_Cons)
    show ?thesis
    proof (cases s)
      case Sent
      then show ?thesis
        using Cons.prems(1) read tl ih2 by (simp del: remdups_adj.simps add: remdups_adj_Cons_hd)
    next
      case Delivered
      then show ?thesis
        using Cons.prems(1) read tl ih by (simp del: remdups_adj.simps add: remdups_adj_Cons_hd)
    next
      case Read
      then show ?thesis using read(1) by simp
    next
      case Failed
      then show ?thesis using Cons.prems(2) by simp
    qed
  qed
qed

text \<open>
  Claim C2, as amended. For a message whose status is \<open>sent\<close> and any interleaving
  of sends, promotions and mark-as-read operations in which no promotion of that message
  is applied while its status is \<open>read\<close>, the statuses the message takes, without
  repetitions, are a subsequence of \<open>[sent, delivered, read]\<close>. The promotion itself
  writes \<open>delivered\<close> whatever status the stored message has.
\<close>

theorem delivery_status_monotone:
  assumes "status_of mid st = Some Sent" and "no_promotion_while_read mid ops st"
  shows "subseq (remdups_adj (status_trace mid ops st)) [Some Sent, Some Delivered, Some Read]
       \<and> (\<forall>e uid ps cid st' s. status_of mid st' = Some s \<longrightarrow>
             status_of mid (apply_op (OpPromote e uid ps cid mid) st') = Some Delivered)"
  using trace_guarded [OF assms(1) _ assms(2)] status_of_promote [of mid _ _ _ _ _ _ mid]
  by simp


text \<open>
  The claim as stated fails: when the recipient marks the message read before the deferred
  promotion of the send runs, the status goes from \<open>sent\<close> to \<open>read\<close> and then
  back to \<open>delivered\<close>.
\<close>

theorem delivery_status_regresses_counterexample:
  "status_of 1 ex_sent_store = Some Sent
   \<and> status_trace 1 ex_ops ex_sent_store = [Some Sent, Some Read, Some Delivered]
   \<and> \<not> subseq [Some Sent, Some Read, Some Delivered] [Some Sent, Some Delivered, Some Read]"
proof -
  have "status_of 1 ex_sent_store = Some Sent" by code_simp
  moreover have "status_trace 1 ex_ops ex_sent_store = [Some Sent, Some Read, Some Delivered]"
    by code_simp
  moreover have "\<not> subseq [Some Sent, Some Read, Some Delivered] [Some Sent, Some Delivered, Some Read]"
    by simp
  ultimately show ?thesis by (intro conjI)
qed

theorem delivery_status_monotone_witness:
  "status_of 1 ex_sent_store = Some Sent
   \<and> no_promotion_while_read 1 ex_ops_ordered ex_sent_store
   \<and> status_trace 1 ex_ops_ordered ex_sent_store = [Some Sent, Some Delivered, Some Read]
   \<and> subseq (remdups_adj (status_trace 1 ex_ops_ordered ex_sent_store))
        [Some Sent, Some Delivered, Some Read]
   \<and> no_promotion_while_read 1 ex_ops_outsider ex_sent_store
   \<and> status_trace 1 ex_ops_outsider ex_sent_store = [Some Sent, Some Sent, Some Delivered]
   \<and> subseq (remdups_adj (status_trace 1 ex_ops_outsider ex_sent_store))
        [Some Sent, Some Delivered, Some Read]"
proof -
  have a: "status_of 1 ex_sent_store = Some Sent" by code_simp
  have b: "no_promotion_while_read 1 ex_ops_ordered ex_sent_store" by code_simp
  have c: "status_trace 1 ex_ops_ordered ex_sent_store = [Some Sent, Some Delivered, Some Read]"
    by code_simp
  have b': "no_promotion_while_read 1 ex_ops_outsider ex_sent_store" by code_simp
  have c': "status_trace 1 ex_ops_outsider ex_sent_store = [Some Sent, Some Sent, Some Delivered]"
    by code_simp
  show ?thesis
    using a b c b' c' delivery_status_monotone [OF a b] delivery_status_monotone [OF a b']
    by (intro conjI) blast+
qed

subsection \<open>Mark-as-read\<close>

lemma find_conversation_SomeD:
  "find_conversation st cid uid = Inr (Some cv) \<Longrightarrow> cast_oid cid = Some (c_id cv)"
  by (auto simp: find_conversation_def find_Some_iff split: option.splits)

lemma mark_messages_read_messages:
  "\<exists>f. messages (fst (mark_messages_read e uid p st))
          = map (\<lambda>m. if f m then read_update uid (e_now e) (mp_sessionId p) m else m) (messages st)
       \<and> (\<forall>m. f m \<longrightarrow> (\<exists>raw ids c. mp_messageIds p = Some raw \<and> cast_all raw = Some ids
                            \<and> cast_oid (mp_conversationId p) = Some c \<and> read_filter ids c uid m))"
proof -
  have unchanged: ?thesis if "fst (mark_messages_read e uid p st) = st"
    using that by (intro exI [of _ "\<lambda>m. False"]) simp
  show ?thesis
  proof (cases "mp_messageIds p")
    case None
    then show ?thesis by (intro unchanged) (simp add: mark_messages_read_def)
  next
    case (Some raw)
    show ?thesis
    proof (cases "truthy (mp_sessionId p)")
      case False
      with Some show ?thesis by (intro unchanged) (simp add: mark_messages_read_def)
    next
      case True
      show ?thesis
      proof (cases "find_conversation st (mp_conversationId p) uid")
        case (Inl err)
        with Some True show ?thesis by (intro unchanged) (simp add: mark_messages_read_def)
      next
        case (Inr r)
        show ?thesis
        proof (cases r)
          case None
          with Some True Inr show ?thesis by (intro unchanged) (simp add: mark_messages_read_def)
        next
          case (Some cv)
          note cv = Some
          show ?thesis
          proof (cases "cast_all raw")
            case None
            with \<open>mp_messageIds p = Some raw\<close> True Inr cv show ?thesis
              by (intro unchanged) (simp add: mark_messages_read_def mark_in_conversation_def)
          next
            case (Some ids)
            have "messages (fst (mark_messages_read e uid p st))
                    = map (\<lambda>m. if read_filter ids (c_id cv) uid m
                                then read_update uid (e_now e) (mp_sessionId p) m else m) (messages st)"
              using \<open>mp_messageIds p = Some raw\<close> True Inr cv Some
              by (simp add: mark_messages_read_def mark_in_conversation_def updateMany_def Let_def)
            moreover have "cast_oid (mp_conversationId p) = Some (c_id cv)"
              using Inr cv by (intro find_conversation_SomeD) simp
            ultimately show ?thesis
              using \<open>mp_messageIds p = Some raw\<close> Some
              by (intro exI [of _ "read_filter ids (c_id cv) uid"]) auto
          qed
        qed
      qed
    qed
  qed
qed

lemma read_update_distinct:
  "uid \<notin> set (map rb_user (m_readBy m)) \<Longrightarrow> distinct (map rb_user (m_readBy m))
   \<Longrightarrow> distinct (map rb_user (m_readBy (read_update uid t sid m)))"
  by (simp add: read_update_def)

lemma readBy_unique_map:
  assumes "readBy_unique st"
      and "messages st' = map (\<lambda>m. if f m then read_update uid t sid m else m) (messages st)"
      and "\<And>m. f m \<Longrightarrow> uid \<notin> set (map rb_user (m_readBy m))"
  shows "readBy_unique st'"
  using assms by (auto simp: readBy_unique_def list_all_iff intro: read_update_distinct)

lemma readBy_unique_update_doc:
  assumes "readBy_unique st" and "\<And>m. f m \<Longrightarrow> uid \<notin> set (map rb_user (m_readBy m))"
  shows "readBy_unique (update_doc f (read_update uid t sid) i st)"
proof (cases "i < length (messages st) \<and> f (messages st ! i)")
  case False
  then show ?thesis using assms(1) by (auto simp: update_doc_def)
next
  case True
  then have "distinct (map rb_user (m_readBy (read_update uid t sid (messages st ! i))))"
    using assms by (intro read_update_distinct) (auto simp: readBy_unique_def list_all_length)
  then show ?thesis
    using True assms(1)
    by (auto simp: update_doc_def readBy_unique_def list_all_length nth_list_update)
qed

lemma readBy_unique_unit: "readBy_unique st \<Longrightarrow> readBy_unique (apply_read_unit x st)"
  by (cases x) (auto intro!: readBy_unique_update_doc simp: read_filter_def)

lemma readBy_unique_units: "readBy_unique st \<Longrightarrow> readBy_unique (fold apply_read_unit units st)"
  by (induction units arbitrary: st) (simp_all add: readBy_unique_unit)


lemma map_prefix_step:
  assumes "n < length ms"
  shows "(map g (take n ms) @ drop n ms)[n := g (ms ! n)] = map g (take (Suc n) ms) @ drop (Suc n) ms"
proof -
  have d: "drop n ms = ms ! n # drop (Suc n) ms"
    using assms by (simp add: Cons_nth_drop_Suc)
  have "length (map g (take n ms)) = n" using assms by simp
  then have "(map g (take n ms) @ drop n ms)[n := g (ms ! n)]
           = map g (take n ms) @ (drop n ms)[0 := g (ms ! n)]"
    by (simp add: list_update_append)
  also have "\<dots> = map g (take n ms) @ g (ms ! n) # drop (Suc n) ms"
    by (subst d) simp
  also have "\<dots> = map g (take (Suc n) ms) @ drop (Suc n) ms"
    using assms by (simp add: take_Suc_conv_app_nth)
  finally show ?thesis .
qed

lemma map_prefix_nth:
  assumes "n < length ms"
  shows "(map g (take n ms) @ drop n ms) ! n = ms ! n"
  using assms by (simp add: nth_append)

lemma update_doc_at:
  assumes "n < length ms" and "ms ! n = x"
  shows "update_doc f u n (st\<lparr>messages := ms\<rparr>)
           = st\<lparr>messages := ms[n := (if f x then u x else x)]\<rparr>"
proof (cases "f x")
  case True
  then show ?thesis using assms by (simp add: update_doc_def)
next
  case False
  have "ms[n := x] = ms" using assms(2) by (metis list_update_id)
  then show ?thesis using assms False by (simp add: update_doc_def)
qed

lemma fold_update_doc:
  "n \<le> length (messages st) \<Longrightarrow>
   fold (update_doc f u) [0..<n] st
     = st\<lparr>messages := map (\<lambda>m. if f m then u m else m) (take n (messages st)) @ drop n (messages st)\<rparr>"
proof (induction n)
  case 0
  then show ?case by simp
next
  case (Suc n)
  define g where "g = (\<lambda>m. if f m then u m else m)"
  define ms where "ms = messages st"
  define mid where "mid = map g (take n ms) @ drop n ms"
  have n: "n < length ms" using Suc.prems by (simp add: ms_def)
  have ih: "fold (update_doc f u) [0..<n] st = st\<lparr>messages := mid\<rparr>"
    using Suc by (simp add: mid_def g_def ms_def)
  have nth: "mid ! n = ms ! n" unfolding mid_def using n by (rule map_prefix_nth)
  have len: "n < length mid" using n by (simp add: mid_def)
  have step: "mid[n := g (ms ! n)] = map g (take (Suc n) ms) @ drop (Suc n) ms"
    unfolding mid_def using n by (rule map_prefix_step)
  have "fold (update_doc f u) [0..<Suc n] st = update_doc f u n (st\<lparr>messages := mid\<rparr>)"
    by (simp add: ih)
  also have "\<dots> = st\<lparr>messages := mid[n := g (ms ! n)]\<rparr>"
    using update_doc_at [OF len nth, of f u st] by (simp add: g_def)
  also have "\<dots> = st\<lparr>messages := map g (take (Suc n) ms) @ drop (Suc n) ms\<rparr>"
    by (simp only: step)
  finally show ?case
    by (simp only: g_def ms_def)
qed

lemma updateMany_as_units:
  "fst (updateMany f u st) = fold (update_doc f u) [0..<length (messages st)] st"
  by (simp add: fold_update_doc updateMany_def)


text \<open>
  Claim C3 (scope of mark-as-read, one \<open>readBy\<close> entry per user). The handler keeps
  every message at its position and changes a message only if its id is among the given
  ids, it belongs to the given conversation, the caller is not yet in its \<open>readBy\<close>,
  it is not deleted for everyone and not deleted for the caller; such a message gains
  exactly the entry (caller, now, session) at the end of \<open>readBy\<close> and the status
  \<open>read\<close>. If every message has at most one \<open>readBy\<close> entry per user, this still
  holds after the handler, after \<open>markMultipleAsRead\<close>, and after any list of atomic
  per-document units of such calls, which is how concurrent calls interleave; an
  \<open>updateMany\<close> is the list of its units in order.
\<close>

theorem mark_read_scope_and_uniqueness:
  "length (messages (fst (mark_messages_read e uid p st))) = length (messages st)
   \<and> (\<forall>i < length (messages st).
         messages (fst (mark_messages_read e uid p st)) ! i = messages st ! i
       \<or> (\<exists>raw ids c. mp_messageIds p = Some raw \<and> cast_all raw = Some ids
              \<and> cast_oid (mp_conversationId p) = Some c
              \<and> m_id (messages st ! i) \<in> set ids
              \<and> m_conversation (messages st ! i) = c
              \<and> uid \<notin> set (map rb_user (m_readBy (messages st ! i)))
              \<and> \<not> m_isDeleted (messages st ! i)
              \<and> uid \<notin> set (map df_user (m_deletedFor (messages st ! i)))
              \<and> messages (fst (mark_messages_read e uid p st)) ! i
                  = (messages st ! i)
                      \<lparr>m_readBy := m_readBy (messages st ! i)
                           @ [\<lparr>rb_user = uid, rb_readAt = e_now e, rb_sessionId = mp_sessionId p\<rparr>],
                       m_deliveryStatus := Read,
                       m_readAt := Some (e_now e)\<rparr>))
   \<and> (readBy_unique st \<longrightarrow> readBy_unique (fst (mark_messages_read e uid p st)))
   \<and> (readBy_unique st \<longrightarrow> readBy_unique (fst (markMultipleAsRead e' ids' uid' sid' st)))
   \<and> (readBy_unique st \<longrightarrow> readBy_unique (fold apply_read_unit units st))
   \<and> fst (updateMany f u st) = fold (update_doc f u) [0..<length (messages st)] st"
proof -
  obtain g where
    ms: "messages (fst (mark_messages_read e uid p st))
          = map (\<lambda>m. if g m then read_update uid (e_now e) (mp_sessionId p) m else m) (messages st)"
    and g: "\<And>m. g m \<Longrightarrow> \<exists>raw ids c. mp_messageIds p = Some raw \<and> cast_all raw = Some ids
                            \<and> cast_oid (mp_conversationId p) = Some c \<and> read_filter ids c uid m"
    using mark_messages_read_messages [of e uid p st] by blast
  have 1: "length (messages (fst (mark_messages_read e uid p st))) = length (messages st)"
    by (simp add: ms)
  have 2: "\<forall>i < length (messages st).
         messages (fst (mark_messages_read e uid p st)) ! i = messages st ! i
       \<or> (\<exists>raw ids c. mp_messageIds p = Some raw \<and> cast_all raw = Some ids
              \<and> cast_oid (mp_conversationId p) = Some c
              \<and> m_id (messages st ! i) \<in> set ids
              \<and> m_conversation (messages st ! i) = c
              \<and> uid \<notin> set (map rb_user (m_readBy (messages st ! i)))
              \<and> \<not> m_isDeleted (messages st ! i)
              \<and> uid \<notin> set (map df_user (m_deletedFor (messages st ! i)))
              \<and> messages (fst (mark_messages_read e uid p st)) ! i
                  = (messages st ! i)
                      \<lparr>m_readBy := m_readBy (messages st ! i)
                           @ [\<lparr>rb_user = uid, rb_readAt = e_now e, rb_sessionId = mp_sessionId p\<rparr>],
                       m_deliveryStatus := Read,
                       m_readAt := Some (e_now e)\<rparr>)"
  proof (intro allI impI)
    fix i assume i: "i < length (messages st)"
    show "messages (fst (mark_messages_read e uid p st)) ! i = messages st ! i
       \<or> (\<exists>raw ids c. mp_messageIds p = Some raw \<and> cast_all raw = Some ids
              \<and> cast_oid (mp_conversationId p) = Some c
              \<and> m_id (messages st ! i) \<in> set ids
              \<and> m_conversation (messages st ! i) = c
              \<and> uid \<notin> set (map rb_user (m_readBy (messages st ! i)))
              \<and> \<not> m_isDeleted (messages st ! i)
              \<and> uid \<notin> set (map df_user (m_deletedFor (messages st ! i)))
              \<and> messages (fst (mark_messages_read e uid p st)) ! i
                  = (messages st ! i)
                      \<lparr>m_readBy := m_readBy (messages st ! i)
                           @ [\<lparr>rb_user = uid, rb_readAt = e_now e, rb_sessionId = mp_sessionId p\<rparr>],
                       m_deliveryStatus := Read,
                       m_readAt := Some (e_now e)\<rparr>)"
    proof (cases "g (messages st ! i)")
      case False
      then show ?thesis using i by (simp add: ms)
    next
      case True
      from g [OF True] obtain raw ids c where
        "mp_messageIds p = Some raw" "cast_all raw = Some ids"
        "cast_oid (mp_conversationId p) = Some c" "read_filter ids c uid (messages st ! i)"
        by blast
      moreover have "messages (fst (mark_messages_read e uid p st)) ! i
                       = read_update uid (e_now e) (mp_sessionId p) (messages st ! i)"
        using True i by (simp add: ms)
      ultimately show ?thesis
        by (intro disjI2 exI [of _ raw] exI [of _ ids] exI [of _ c])
           (simp add: read_filter_def read_update_def)
    qed
  qed
  have 3: "readBy_unique st \<longrightarrow> readBy_unique (fst (mark_messages_read e uid p st))"
  proof
    assume u: "readBy_unique st"
    show "readBy_unique (fst (mark_messages_read e uid p st))"
      using u ms
    proof (rule readBy_unique_map)
      fix m assume "g m"
      from g [OF this] show "uid \<notin> set (map rb_user (m_readBy m))"
        by (auto simp: read_filter_def)
    qed
  qed
  have 4: "readBy_unique st \<longrightarrow> readBy_unique (fst (markMultipleAsRead e' ids' uid' sid' st))"
  proof
    assume u: "readBy_unique st"
    show "readBy_unique (fst (markMultipleAsRead e' ids' uid' sid' st))"
      using u
    proof (rule readBy_unique_map)
      show "messages (fst (markMultipleAsRead e' ids' uid' sid' st))
          = map (\<lambda>m. if m_id m \<in> set ids' \<and> uid' \<notin> set (map rb_user (m_readBy m))
                      then read_update uid' (e_now e') sid' m else m) (messages st)"
        by (simp add: markMultipleAsRead_def updateMany_def)
    qed simp
  qed
  have 5: "readBy_unique st \<longrightarrow> readBy_unique (fold apply_read_unit units st)"
    by (simp add: readBy_unique_units)
  have 6: "fst (updateMany f u st) = fold (update_doc f u) [0..<length (messages st)] st"
    by (rule updateMany_as_units)
  from 1 2 3 4 5 6 show ?thesis by (intro conjI)
qed

theorem mark_read_scope_and_uniqueness_witness:
  "readBy_unique ex_sent_store
   \<and> map m_readBy (messages (fst (mark_messages_read (ex_env\<lparr>e_now := 1050\<rparr>) 2 ex_mark ex_sent_store)))
       = [[\<lparr>rb_user = 2, rb_readAt = 1050, rb_sessionId = ''s2''\<rparr>]]
   \<and> readBy_unique (fst (mark_messages_read (ex_env\<lparr>e_now := 1050\<rparr>) 2 ex_mark ex_sent_store))
   \<and> map m_readBy (messages (fold apply_read_unit ex_read_units ex_sent_store))
       = [[\<lparr>rb_user = 2, rb_readAt = 1050, rb_sessionId = ''s2''\<rparr>]]
   \<and> readBy_unique (fold apply_read_unit ex_read_units ex_sent_store)"
proof -
  have a: "readBy_unique ex_sent_store" by code_simp
  have b: "map m_readBy (messages (fst (mark_messages_read (ex_env\<lparr>e_now := 1050\<rparr>) 2 ex_mark ex_sent_store)))
       = [[\<lparr>rb_user = 2, rb_readAt = 1050, rb_sessionId = ''s2''\<rparr>]]"
    by code_simp
  have c: "map m_readBy (messages (fold apply_read_unit ex_read_units ex_sent_store))
       = [[\<lparr>rb_user = 2, rb_readAt = 1050, rb_sessionId = ''s2''\<rparr>]]"
    by code_simp
  note t = mark_read_scope_and_uniqueness
             [of "ex_env\<lparr>e_now := 1050\<rparr>" 2 ex_mark ex_sent_store _ _ _ _ ex_read_units]
  show ?thesis
    using a b c t by (intro conjI) blast+
qed

subsection \<open>Delete for everyone\<close>

lemma find_message_SomeD:
  "find_message st mid = Inr (Some m) \<Longrightarrow> \<exists>i. cast_oid mid = Some i \<and> find (\<lambda>x. m_id x = i) (messages st) = Some m \<and> m_id m = i"
  by (auto simp: find_message_def find_Some_iff split: option.splits)

lemma delete_message_cases:
  "(\<exists>msg. delete_message e uid p st = (st, [(ToCaller, Error msg)])
          \<and> msg \<in> {''Error deleting message'', ''Message not found'', ''Access denied''})
   \<or> (\<exists>m cv. find_message st (dp_messageId p) = Inr (Some m)
          \<and> find (\<lambda>cv. c_id cv = m_conversation m) (conversations st) = Some cv
          \<and> uid \<in> set (c_participants cv)
          \<and> delete_message e uid p st =
               (if dp_deleteType p = ''forEveryone'' then delete_for_everyone e uid p m st
                else delete_for_me e uid p m st))"
  by (auto simp: delete_message_def split: sum.splits option.splits)

lemma delete_for_everyone_result:
  "delete_for_everyone e uid p m st =
     (if m_sender m \<noteq> uid then (st, [(ToCaller, Error ''Only sender can delete for everyone'')])
      else if m_createdAt m < e_now e - one_hour
      then (st, [(ToCaller, Error ''Message can only be deleted for everyone within 1 hour'')])
      else (save_message (m\<lparr>m_isDeleted := True, m_deletedAt := Some (e_now e), m_deletedBy := Some uid\<rparr>) st,
            [(ToRoom (ConversationRoom (dp_conversationId p)),
              MessageDeletedForEveryone (dp_messageId p) uid (e_now e))]))"
  by (simp add: delete_for_everyone_def deleteForUser_def)

lemma delete_for_me_result:
  "delete_for_me e uid p m st =
     (save_message (if uid \<in> set (map df_user (m_deletedFor m)) then m
                    else m\<lparr>m_deletedFor := m_deletedFor m
                             @ [\<lparr>df_user = uid, df_deletedAt = e_now e, df_deleteType = ForMe\<rparr>]\<rparr>) st,
      [(ToCaller, MessageDeletedForMe (dp_messageId p) (e_now e))])"
  by (simp add: delete_for_me_def deleteForUser_def)

lemma find_by_id_SomeD: "find (\<lambda>x. m_id x = i) xs = Some x \<Longrightarrow> m_id x = i"
  by (auto simp: find_Some_iff)

lemma is_deleted_save_message:
  assumes "find (\<lambda>x. m_id x = m_id m) (messages st) = Some m"
      and "m_id m' = m_id m"
  shows "is_deleted mid (save_message m' st)
           = (if mid = m_id m then m_isDeleted m' else is_deleted mid st)"
proof -
  let ?g = "\<lambda>x. if m_id x = m_id m' then m' else x"
  have f: "find (\<lambda>x. m_id x = mid) (map ?g (messages st))
          = map_option ?g (find (\<lambda>x. m_id x = mid) (messages st))"
    by (rule find_map_same_id) (simp add: assms)
  show ?thesis
  proof (cases "mid = m_id m")
    case True
    then show ?thesis
      using f assms by (simp add: is_deleted_def save_message_def)
  next
    case False
    show ?thesis
    proof (cases "find (\<lambda>x. m_id x = mid) (messages st)")
      case None
      then show ?thesis using f False by (simp add: is_deleted_def save_message_def)
    next
      case (Some x)
      then have "m_id x = mid" by (rule find_by_id_SomeD)
      then show ?thesis
        using f False Some assms(2) by (simp add: is_deleted_def save_message_def)
    qed
  qed
qed

lemma is_deleted_map:
  assumes "messages st' = map g (messages st)"
      and "\<And>x. m_id (g x) = m_id x" and "\<And>x. m_isDeleted x \<Longrightarrow> m_isDeleted (g x)"
      and "is_deleted mid st"
  shows "is_deleted mid st'"
proof -
  have "find (\<lambda>x. m_id x = mid) (map g (messages st))
          = map_option g (find (\<lambda>x. m_id x = mid) (messages st))"
    by (rule find_map_same_id) (rule assms(2))
  then show ?thesis
    using assms(1,3,4)
    by (cases "find (\<lambda>x. m_id x = mid) (messages st)") (simp_all add: is_deleted_def)
qed

lemma is_deleted_append:
  assumes "messages st' = messages st @ extra" and "is_deleted mid st"
  shows "is_deleted mid st'"
proof (cases "find (\<lambda>x. m_id x = mid) (messages st)")
  case None
  then show ?thesis using assms(2) by (simp add: is_deleted_def)
next
  case (Some x)
  then have "find (\<lambda>x. m_id x = mid) (messages st @ extra) = Some x"
    by (rule find_append_Some)
  then show ?thesis using assms Some by (simp add: is_deleted_def)
qed

lemma is_deleted_delete_message:
  assumes "is_deleted mid st"
  shows "is_deleted mid (fst (delete_message e uid p st))"
proof -
  from delete_message_cases [of e uid p st] show ?thesis
  proof
    assume "\<exists>msg. delete_message e uid p st = (st, [(ToCaller, Error msg)])
          \<and> msg \<in> {''Error deleting message'', ''Message not found'', ''Access denied''}"
    then show ?thesis using assms by auto
  next
    assume "\<exists>m cv. find_message st (dp_messageId p) = Inr (Some m)
          \<and> find (\<lambda>cv. c_id cv = m_conversation m) (conversations st) = Some cv
          \<and> uid \<in> set (c_participants cv)
          \<and> delete_message e uid p st =
               (if dp_deleteType p = ''forEveryone'' then delete_for_everyone e uid p m st
                else delete_for_me e uid p m st)"
    then obtain m cv where fm: "find_message st (dp_messageId p) = Inr (Some m)"
      and fcv: "find (\<lambda>cv. c_id cv = m_conversation m) (conversations st) = Some cv"
      and part: "uid \<in> set (c_participants cv)"
      and r: "delete_message e uid p st =
               (if dp_deleteType p = ''forEveryone'' then delete_for_everyone e uid p m st
                else delete_for_me e uid p m st)"
      by blast
    from find_message_SomeD [OF fm] have f: "find (\<lambda>x. m_id x = m_id m) (messages st) = Some m"
      by auto
    have md: "mid = m_id m \<Longrightarrow> m_isDeleted m"
      using assms f by (simp add: is_deleted_def)
    show ?thesis
      unfolding r using assms md
      by (auto simp: delete_for_everyone_result delete_for_me_result is_deleted_save_message [OF f])
  qed
qed


lemma is_deleted_send:
  "is_deleted mid st \<Longrightarrow> is_deleted mid (fst (send_message e uid p st))"
  using messages_send_message [of e uid p st]
  by (auto simp: is_deleted_def intro: is_deleted_append [unfolded is_deleted_def])

lemma is_deleted_promote:
  assumes "is_deleted mid st"
  shows "is_deleted mid (fst (promote_delivered e uid ps cid mid' st))"
proof (cases "find (\<lambda>m. m_id m = mid') (messages st)")
  case None
  then show ?thesis using assms by (simp add: promote_delivered_def)
next
  case (Some saved)
  let ?g = "\<lambda>m. if m_id m = mid' then m\<lparr>m_deliveryStatus := Delivered, m_deliveredAt := Some (e_now e)\<rparr> else m"
  have "messages (fst (promote_delivered e uid ps cid mid' st)) = map ?g (messages st)"
    using Some by (simp add: promote_delivered_def Let_def)
  then show ?thesis
    by (rule is_deleted_map) (simp_all add: assms)
qed

lemma is_deleted_mark_read:
  assumes "is_deleted mid st"
  shows "is_deleted mid (fst (mark_messages_read e uid p st))"
proof -
  from mark_messages_read_messages [of e uid p st] obtain f where
    "messages (fst (mark_messages_read e uid p st))
          = map (\<lambda>m. if f m then read_update uid (e_now e) (mp_sessionId p) m else m) (messages st)"
    by blast
  then show ?thesis
    by (rule is_deleted_map) (simp_all add: assms read_update_def)
qed

lemma is_deleted_mark_multiple:
  assumes "is_deleted mid st"
  shows "is_deleted mid (fst (markMultipleAsRead e ids uid sid st))"
proof -
  have "messages (fst (markMultipleAsRead e ids uid sid st))
          = map (\<lambda>m. if m_id m \<in> set ids \<and> uid \<notin> set (map rb_user (m_readBy m))
                      then read_update uid (e_now e) sid m else m) (messages st)"
    by (simp add: markMultipleAsRead_def updateMany_def)
  then show ?thesis
    by (rule is_deleted_map) (simp_all add: assms read_update_def)
qed

lemma delete_one_cases:
  "delete_one e uid cid mid (st, n, deleted) = (st, n, deleted)
   \<or> (\<exists>m. find_message st mid = Inr (Some m) \<and> oid_toString (m_conversation m) = cid
          \<and> delete_one e uid cid mid (st, n, deleted)
               = (save_message (if uid \<in> set (map df_user (m_deletedFor m)) then m
                                else m\<lparr>m_deletedFor := m_deletedFor m
                                      @ [\<lparr>df_user = uid, df_deletedAt = e_now e, df_deleteType = ForMe\<rparr>]\<rparr>) st,
                  n + 1, deleted @ [mid]))"
  by (auto simp: delete_one_def deleteForUser_def split: sum.splits option.splits)

lemma is_deleted_delete_one:
  assumes "is_deleted mid (fst acc)"
  shows "is_deleted mid (fst (delete_one e uid cid x acc))"
proof -
  obtain st n deleted where acc: "acc = (st, n, deleted)" by (cases acc)
  from delete_one_cases [of e uid cid x st n deleted] show ?thesis
  proof
    assume "delete_one e uid cid x (st, n, deleted) = (st, n, deleted)"
    then show ?thesis using assms acc by simp
  next
    assume "\<exists>m. find_message st x = Inr (Some m) \<and> oid_toString (m_conversation m) = cid
          \<and> delete_one e uid cid x (st, n, deleted)
               = (save_message (if uid \<in> set (map df_user (m_deletedFor m)) then m
                                else m\<lparr>m_deletedFor := m_deletedFor m
                                      @ [\<lparr>df_user = uid, df_deletedAt = e_now e, df_deleteType = ForMe\<rparr>]\<rparr>) st,
                  n + 1, deleted @ [x])"
    then obtain m where fm: "find_message st x = Inr (Some m)"
      and r: "delete_one e uid cid x (st, n, deleted)
               = (save_message (if uid \<in> set (map df_user (m_deletedFor m)) then m
                                else m\<lparr>m_deletedFor := m_deletedFor m
                                      @ [\<lparr>df_user = uid, df_deletedAt = e_now e, df_deleteType = ForMe\<rparr>]\<rparr>) st,
                  n + 1, deleted @ [x])"
      by blast
    from find_message_SomeD [OF fm] have f: "find (\<lambda>x. m_id x = m_id m) (messages st) = Some m"
      by auto
    have md: "mid = m_id m \<Longrightarrow> m_isDeleted m"
      using assms f acc by (simp add: is_deleted_def)
    show ?thesis
      unfolding acc r using assms md acc
      by (auto simp: is_deleted_save_message [OF f])
  qed
qed

lemma is_deleted_delete_loop:
  "is_deleted mid (fst acc) \<Longrightarrow> is_deleted mid (fst (delete_loop e uid cid ids acc))"
  by (induction ids arbitrary: acc) (simp_all add: is_deleted_delete_one)

lemma delete_multiple_messages_fst:
  "fst (delete_multiple_messages e uid p st) = st
   \<or> (\<exists>ids. bd_messageIds p = Some ids
          \<and> fst (delete_multiple_messages e uid p st)
              = fst (delete_loop e uid (bd_conversationId p) ids (st, 0, [])))"
proof (cases "bd_messageIds p")
  case None
  then show ?thesis by (simp add: delete_multiple_messages_def)
next
  case (Some ids)
  obtain st' n deleted where l: "delete_loop e uid (bd_conversationId p) ids (st, 0, []) = (st', n, deleted)"
    by (cases "delete_loop e uid (bd_conversationId p) ids (st, 0, [])")
  show ?thesis
    using Some l
    by (auto simp: delete_multiple_messages_def split: sum.splits option.splits)
qed

lemma is_deleted_delete_multiple:
  assumes "is_deleted mid st"
  shows "is_deleted mid (fst (delete_multiple_messages e uid p st))"
proof -
  have "is_deleted mid (fst (delete_loop e uid (bd_conversationId p) ids (st, 0, [])))" for ids
    using assms by (intro is_deleted_delete_loop) simp
  then show ?thesis
    using assms delete_multiple_messages_fst [of e uid p st] by auto
qed

lemma messages_consume:
  "messages (fst (consume e item st)) = messages st
   \<or> (\<exists>m. messages (fst (consume e item st)) = messages st @ [m])"
  by (auto simp: consume_def processAutoMessage_def deliver_auto_message_def
                 find_or_create_conversation_def save_new_message_def Let_def
                 mark_sent_def touch_conversation_def
           split: work_item.splits option.splits prod.splits sum.splits if_splits)

lemma is_deleted_consume:
  "is_deleted mid st \<Longrightarrow> is_deleted mid (fst (consume e item st))"
  using messages_consume [of e item st]
  by (auto simp: is_deleted_def intro: is_deleted_append [unfolded is_deleted_def])

lemma messages_plan: "messages (planAutomaticMessages rnd now st) = messages st"
  by (simp add: planAutomaticMessages_def insertMany_def Let_def)

lemma is_deleted_plan:
  "is_deleted mid st \<Longrightarrow> is_deleted mid (planAutomaticMessages rnd now st)"
  by (simp add: is_deleted_def messages_plan)

lemma is_deleted_call: "is_deleted mid st \<Longrightarrow> is_deleted mid (apply_call c st)"
  by (cases c)
     (simp_all add: is_deleted_send is_deleted_promote is_deleted_mark_read is_deleted_mark_multiple
                    is_deleted_delete_message is_deleted_delete_multiple is_deleted_consume
                    is_deleted_plan)

lemma is_deleted_calls: "is_deleted mid st \<Longrightarrow> is_deleted mid (fold apply_call cs st)"
  by (induction cs arbitrary: st) (simp_all add: is_deleted_call)


lemma one_hour_window: "(c < n - one_hour) = (n - c > 60 * 60 * 1000)"
  by (auto simp: one_hour_def)

text \<open>
  Claim C6 (delete for everyone). The event \<open>message_deleted_for_everyone\<close> is emitted
  only if the message exists, the caller is its sender and it was created at most one hour
  (3600000 ms) before. For a \<open>forEveryone\<close> request on an existing message by a
  participant of its conversation: a caller who is not the sender gets the authorization
  error and nothing changes; the sender of a message older than one hour gets the
  time-limit error and nothing changes; the sender of a message at most one hour old gets
  \<open>isDeleted\<close> set, and it stays set after any further calls of the modelled entry
  points. The two errors are different messages.
\<close>

theorem delete_for_everyone_rules:
  "(list_ex (\<lambda>ev. is_deleted_for_everyone_event (snd ev)) (snd (delete_message e uid p st)) \<longrightarrow>
      (\<exists>m. find_message st (dp_messageId p) = Inr (Some m) \<and> m_sender m = uid
           \<and> e_now e - m_createdAt m \<le> 60 * 60 * 1000))
   \<and> (\<forall>m cv. dp_deleteType p = ''forEveryone''
          \<and> find_message st (dp_messageId p) = Inr (Some m)
          \<and> find (\<lambda>cv. c_id cv = m_conversation m) (conversations st) = Some cv
          \<and> uid \<in> set (c_participants cv) \<longrightarrow>
        (m_sender m \<noteq> uid \<longrightarrow>
           delete_message e uid p st = (st, [(ToCaller, Error ''Only sender can delete for everyone'')]))
      \<and> (m_sender m = uid \<and> e_now e - m_createdAt m > 60 * 60 * 1000 \<longrightarrow>
           delete_message e uid p st =
             (st, [(ToCaller, Error ''Message can only be deleted for everyone within 1 hour'')]))
      \<and> (m_sender m = uid \<and> e_now e - m_createdAt m \<le> 60 * 60 * 1000 \<longrightarrow>
           snd (delete_message e uid p st) =
             [(ToRoom (ConversationRoom (dp_conversationId p)),
               MessageDeletedForEveryone (dp_messageId p) uid (e_now e))]
         \<and> is_deleted (m_id m) (fst (delete_message e uid p st))
         \<and> (\<forall>calls. is_deleted (m_id m) (fold apply_call calls (fst (delete_message e uid p st))))))
   \<and> ''Only sender can delete for everyone''
        \<noteq> ''Message can only be deleted for everyone within 1 hour''"
proof (intro conjI impI allI)
  assume ev: "list_ex (\<lambda>ev. is_deleted_for_everyone_event (snd ev)) (snd (delete_message e uid p st))"
  from delete_message_cases [of e uid p st]
  show "\<exists>m. find_message st (dp_messageId p) = Inr (Some m) \<and> m_sender m = uid
           \<and> e_now e - m_createdAt m \<le> 60 * 60 * 1000"
  proof
    assume "\<exists>msg. delete_message e uid p st = (st, [(ToCaller, Error msg)])
          \<and> msg \<in> {''Error deleting message'', ''Message not found'', ''Access denied''}"
    then show ?thesis using ev by auto
  next
    assume "\<exists>m cv. find_message st (dp_messageId p) = Inr (Some m)
          \<and> find (\<lambda>cv. c_id cv = m_conversation m) (conversations st) = Some cv
          \<and> uid \<in> set (c_participants cv)
          \<and> delete_message e uid p st =
               (if dp_deleteType p = ''forEveryone'' then delete_for_everyone e uid p m st
                else delete_for_me e uid p m st)"
    then obtain m cv where fm: "find_message st (dp_messageId p) = Inr (Some m)"
      and fcv: "find (\<lambda>cv. c_id cv = m_conversation m) (conversations st) = Some cv"
      and part: "uid \<in> set (c_participants cv)"
      and r: "delete_message e uid p st =
               (if dp_deleteType p = ''forEveryone'' then delete_for_everyone e uid p m st
                else delete_for_me e uid p m st)"
      by blast
    have "m_sender m = uid \<and> e_now e - m_createdAt m \<le> 60 * 60 * 1000"
      using ev unfolding r
      by (auto simp: delete_for_everyone_result delete_for_me_result one_hour_window
               split: if_splits)
    with fm show ?thesis by blast
  qed
next
  fix m cv
  assume h: "dp_deleteType p = ''forEveryone''
          \<and> find_message st (dp_messageId p) = Inr (Some m)
          \<and> find (\<lambda>cv. c_id cv = m_conversation m) (conversations st) = Some cv
          \<and> uid \<in> set (c_participants cv)"
  then have r: "delete_message e uid p st = delete_for_everyone e uid p m st"
    by (simp add: delete_message_def)
  from h find_message_SomeD [of st "dp_messageId p" m]
  have f: "find (\<lambda>x. m_id x = m_id m) (messages st) = Some m"
    by auto
  {
    assume "m_sender m \<noteq> uid"
    then show "delete_message e uid p st = (st, [(ToCaller, Error ''Only sender can delete for everyone'')])"
      by (simp add: r delete_for_everyone_result)
  next
    assume "m_sender m = uid \<and> e_now e - m_createdAt m > 60 * 60 * 1000"
    then show "delete_message e uid p st =
             (st, [(ToCaller, Error ''Message can only be deleted for everyone within 1 hour'')])"
      by (simp add: r delete_for_everyone_result one_hour_window)
  next
    assume a: "m_sender m = uid \<and> e_now e - m_createdAt m \<le> 60 * 60 * 1000"
    then have nw: "\<not> m_createdAt m < e_now e - one_hour"
      by (simp add: one_hour_window)
    show "snd (delete_message e uid p st) =
             [(ToRoom (ConversationRoom (dp_conversationId p)),
               MessageDeletedForEveryone (dp_messageId p) uid (e_now e))]"
      using a nw by (simp add: r delete_for_everyone_result)
    show d: "is_deleted (m_id m) (fst (delete_message e uid p st))"
      using a nw by (simp add: r delete_for_everyone_result is_deleted_save_message [OF f])
    fix calls
    show "is_deleted (m_id m) (fold apply_call calls (fst (delete_message e uid p st)))"
      using d by (rule is_deleted_calls)
  }
next
  show "''Only sender can delete for everyone''
        \<noteq> ''Message can only be deleted for everyone within 1 hour''"
    by simp
qed

theorem delete_for_everyone_rules_witness:
  "m_sender ex_message = 1 \<and> m_createdAt ex_message = 1000
   \<and> snd (delete_message (ex_env\<lparr>e_now := 1000 + minutes 59\<rparr>) 1 ex_delete ex_sent_store)
       = [(ToRoom (ConversationRoom (Canonical 1)),
           MessageDeletedForEveryone (Canonical 1) 1 (1000 + minutes 59))]
   \<and> is_deleted 1 (fst (delete_message (ex_env\<lparr>e_now := 1000 + minutes 59\<rparr>) 1 ex_delete ex_sent_store))
   \<and> delete_message (ex_env\<lparr>e_now := 1000 + minutes 61\<rparr>) 1 ex_delete ex_sent_store
       = (ex_sent_store, [(ToCaller, Error ''Message can only be deleted for everyone within 1 hour'')])
   \<and> delete_message (ex_env\<lparr>e_now := 1000 + minutes 59\<rparr>) 2 ex_delete ex_sent_store
       = (ex_sent_store, [(ToCaller, Error ''Only sender can delete for everyone'')])"
proof -
  have ty: "dp_deleteType ex_delete = ''forEveryone''" "dp_messageId ex_delete = Canonical 1"
    "dp_conversationId ex_delete = Canonical 1"
    by (simp_all add: ex_delete_def)
  have fm: "find_message ex_sent_store (dp_messageId ex_delete) = Inr (Some ex_message)"
    by code_simp
  have fcv: "find (\<lambda>cv. c_id cv = m_conversation ex_message) (conversations ex_sent_store)
               = Some ex_conversation"
    by code_simp
  have part: "1 \<in> set (c_participants ex_conversation)" "2 \<in> set (c_participants ex_conversation)"
    by code_simp+
  have m: "m_sender ex_message = 1" "m_createdAt ex_message = 1000" "m_id ex_message = 1"
    by code_simp+
  have t59: "e_now (ex_env\<lparr>e_now := 1000 + minutes 59\<rparr>) - m_createdAt ex_message \<le> 60 * 60 * 1000"
    and t61: "e_now (ex_env\<lparr>e_now := 1000 + minutes 61\<rparr>) - m_createdAt ex_message > 60 * 60 * 1000"
    by (simp_all add: m minutes_def)
  note a = delete_for_everyone_rules [of "ex_env\<lparr>e_now := 1000 + minutes 59\<rparr>" 1 ex_delete ex_sent_store,
              THEN conjunct2, THEN conjunct1, rule_format, of ex_message ex_conversation]
  note b = delete_for_everyone_rules [of "ex_env\<lparr>e_now := 1000 + minutes 61\<rparr>" 1 ex_delete ex_sent_store,
              THEN conjunct2, THEN conjunct1, rule_format, of ex_message ex_conversation]
  note c = delete_for_everyone_rules [of "ex_env\<lparr>e_now := 1000 + minutes 59\<rparr>" 2 ex_delete ex_sent_store,
              THEN conjunct2, THEN conjunct1, rule_format, of ex_message ex_conversation]
  have 1: "snd (delete_message (ex_env\<lparr>e_now := 1000 + minutes 59\<rparr>) 1 ex_delete ex_sent_store)
       = [(ToRoom (ConversationRoom (Canonical 1)),
           MessageDeletedForEveryone (Canonical 1) 1 (1000 + minutes 59))]"
    and 2: "is_deleted 1 (fst (delete_message (ex_env\<lparr>e_now := 1000 + minutes 59\<rparr>) 1 ex_delete ex_sent_store))"
    using a ty fm fcv part(1) m t59 by simp_all
  have 3: "delete_message (ex_env\<lparr>e_now := 1000 + minutes 61\<rparr>) 1 ex_delete ex_sent_store
       = (ex_sent_store, [(ToCaller, Error ''Message can only be deleted for everyone within 1 hour'')])"
    using b ty fm fcv part(1) m(1) t61 by simp
  have 4: "delete_message (ex_env\<lparr>e_now := 1000 + minutes 59\<rparr>) 2 ex_delete ex_sent_store
       = (ex_sent_store, [(ToCaller, Error ''Only sender can delete for everyone'')])"
    using c ty fm fcv part(2) m(1) by simp
  from m(1,2) 1 2 3 4 show ?thesis by (intro conjI)
qed

subsection \<open>Bulk delete\<close>

lemma delete_for_me_doc_idem [simp]:
  "delete_for_me_doc uid t (delete_for_me_doc uid t m) = delete_for_me_doc uid t m"
  by (simp add: delete_for_me_doc_def)

lemma delete_for_me_doc_fields [simp]:
  "m_id (delete_for_me_doc uid t m) = m_id m"
  "m_conversation (delete_for_me_doc uid t m) = m_conversation m"
  by (simp_all add: delete_for_me_doc_def)

lemma lookup_id: "lookup st i = Some m \<Longrightarrow> m_id m = i"
  unfolding lookup_def by (rule find_by_id_SomeD)

lemma lookup_save_message:
  assumes "lookup st j = Some m"
  shows "lookup (save_message (delete_for_me_doc uid t m) st) i
           = map_option (\<lambda>x. if i = j then delete_for_me_doc uid t x else x) (lookup st i)"
proof -
  let ?m' = "delete_for_me_doc uid t m"
  let ?g = "\<lambda>x. if m_id x = m_id ?m' then ?m' else x"
  have j: "m_id m = j" using assms by (rule lookup_id)
  have f: "find (\<lambda>x. m_id x = i) (map ?g (messages st))
          = map_option ?g (find (\<lambda>x. m_id x = i) (messages st))"
    by (rule find_map_same_id) simp
  show ?thesis
  proof (cases "lookup st i")
    case None
    then show ?thesis using f by (simp add: lookup_def save_message_def)
  next
    case (Some x)
    then have "m_id x = i" by (rule lookup_id)
    moreover have "i = j \<Longrightarrow> x = m" using Some assms by simp
    ultimately show ?thesis
      using f Some j by (auto simp: lookup_def save_message_def)
  qed
qed

lemma delete_one_result:
  "delete_one e uid cid mid (st, n, deleted) =
     (if deletable st cid mid
      then (save_message (delete_for_me_doc uid (e_now e) (the (lookup st (the (cast_oid mid))))) st,
            n + 1, deleted @ [mid])
      else (st, n, deleted))"
  by (auto simp: delete_one_def deletable_def find_message_def lookup_def deleteForUser_def
                 delete_for_me_doc_def oid_toString_def
           split: option.splits)

lemma lookup_delete_one:
  assumes "delete_one e uid cid mid (st, n, deleted) = (st1, n1, deleted1)"
  shows "lookup st1 i
           = map_option (\<lambda>x. if cast_oid mid = Some i \<and> oid_toString (m_conversation x) = cid
                              then delete_for_me_doc uid (e_now e) x else x) (lookup st i)"
proof (cases "deletable st cid mid")
  case False
  then have "st1 = st" using assms by (simp add: delete_one_result)
  moreover have "\<not> (cast_oid mid = Some i \<and> oid_toString (m_conversation x) = cid)" if "lookup st i = Some x" for x
    using False that by (auto simp: deletable_def)
  ultimately show ?thesis
    by (cases "lookup st i") auto
next
  case True
  then obtain j m where j: "cast_oid mid = Some j" "lookup st j = Some m" "oid_toString (m_conversation m) = cid"
    by (auto simp: deletable_def split: option.splits)
  have st1: "st1 = save_message (delete_for_me_doc uid (e_now e) m) st"
    using assms True j by (simp add: delete_one_result)
  show ?thesis
  proof (cases "lookup st i")
    case None
    then show ?thesis by (simp add: st1 lookup_save_message [OF j(2)])
  next
    case (Some x)
    have "i = j \<Longrightarrow> x = m" using Some j(2) by simp
    then show ?thesis
      using Some j by (auto simp: st1 lookup_save_message [OF j(2)])
  qed
qed

lemma deletable_delete_one:
  assumes "delete_one e uid cid mid (st, n, deleted) = (st1, n1, deleted1)"
  shows "deletable st1 cid x = deletable st cid x"
proof (cases "cast_oid x")
  case None
  then show ?thesis by (simp add: deletable_def)
next
  case (Some i)
  show ?thesis
    using Some lookup_delete_one [OF assms, of i]
    by (cases "lookup st i") (simp_all add: deletable_def)
qed


lemma delete_loop_result:
  assumes "delete_loop e uid cid ids (st, n, deleted) = (st', n', deleted')"
  shows "deleted' = deleted @ filter (deletable st cid) ids
       \<and> n' = n + length (filter (deletable st cid) ids)
       \<and> (\<forall>i. lookup st' i
                = map_option (\<lambda>x. if (\<exists>mid \<in> set ids. cast_oid mid = Some i) \<and> oid_toString (m_conversation x) = cid
                                   then delete_for_me_doc uid (e_now e) x else x) (lookup st i))"
  using assms
proof (induction ids arbitrary: st n deleted)
  case Nil
  then show ?case by (simp add: option.map_ident)
next
  case (Cons mid ids)
  obtain st1 n1 deleted1 where
    one: "delete_one e uid cid mid (st, n, deleted) = (st1, n1, deleted1)"
    by (cases "delete_one e uid cid mid (st, n, deleted)")
  have rest: "delete_loop e uid cid ids (st1, n1, deleted1) = (st', n', deleted')"
    using Cons.prems one by simp
  note ih = Cons.IH [OF rest]
  have dl: "deletable st1 cid = deletable st cid"
    using deletable_delete_one [OF one] by blast
  have acc: "deleted1 = (if deletable st cid mid then deleted @ [mid] else deleted)"
            "n1 = (if deletable st cid mid then n + 1 else n)"
    using one by (simp_all add: delete_one_result split: if_splits)
  have 1: "deleted' = deleted @ filter (deletable st cid) (mid # ids)"
    using ih acc by (simp add: dl)
  have 2: "n' = n + length (filter (deletable st cid) (mid # ids))"
    using ih acc by (simp add: dl)
  have 3: "lookup st' i
                = map_option (\<lambda>x. if (\<exists>y \<in> set (mid # ids). cast_oid y = Some i) \<and> oid_toString (m_conversation x) = cid
                                   then delete_for_me_doc uid (e_now e) x else x) (lookup st i)" for i
  proof (cases "lookup st i")
    case None
    then show ?thesis using ih lookup_delete_one [OF one, of i] by simp
  next
    case (Some x)
    then show ?thesis
      using ih lookup_delete_one [OF one, of i] by auto
  qed
  from 1 2 3 show ?case by blast
qed


lemma delete_loop_none:
  "\<forall>mid \<in> set ids. \<not> deletable st cid mid \<Longrightarrow>
   delete_loop e uid cid ids (st, n, deleted) = (st, n, deleted)"
  by (induction ids) (simp_all add: delete_one_result)

lemma not_deletable_noncanonical: "\<not> deletable st (NonCanonical c) mid"
  by (simp add: deletable_def oid_toString_def split: option.splits)

lemma deletable_canonical:
  "deletable st (Canonical c) mid
     = (\<exists>i m. cast_oid mid = Some i \<and> lookup st i = Some m \<and> m_conversation m = c)"
  by (auto simp: deletable_def oid_toString_def split: option.splits)

text \<open>
  Claim C9, as amended. For a non-empty list of ids and a conversation the caller
  participates in, the handler answers with \<open>multiple_messages_deleted\<close>:
  \<open>deletedMessageIds\<close> are the requested ids, in order and with repetitions, that cast
  to an existing message whose conversation id prints as the conversation id string of
  the request (an id that does not cast, or names no message or a message elsewhere, is
  skipped and the ids after it are still processed); \<open>deletedCount\<close> is the number of
  these ids, whether or not the message was already deleted for the caller, and
  \<open>totalRequested\<close> is the length of the list. In the database every message named by
  one of these ids has the delete-for-me applied (one \<open>deletedFor\<close> entry for the
  caller, once) and every other message is unchanged. When the request names the
  conversation by its canonical id string these are the messages that belong to the
  conversation; when it names it by another string that casts to the same id, nothing is
  deleted and the reply reports no ids and the count 0.
\<close>

theorem bulk_delete_tolerant:
  assumes "bd_messageIds p = Some ids" and "ids \<noteq> []"
      and "find_conversation st (bd_conversationId p) uid = Inr (Some cv)"
  shows "snd (delete_multiple_messages e uid p st)
           = [(ToCaller, MultipleMessagesDeleted (filter (deletable st (bd_conversationId p)) ids)
                           (length (filter (deletable st (bd_conversationId p)) ids)) (length ids))]
       \<and> (\<forall>i. lookup (fst (delete_multiple_messages e uid p st)) i
                = map_option (\<lambda>x. if (\<exists>mid \<in> set ids. cast_oid mid = Some i)
                                      \<and> oid_toString (m_conversation x) = bd_conversationId p
                                   then delete_for_me_doc uid (e_now e) x else x) (lookup st i))
       \<and> (bd_conversationId p = Canonical (c_id cv) \<longrightarrow>
            (\<forall>mid. deletable st (bd_conversationId p) mid
                     = (\<exists>i m. cast_oid mid = Some i \<and> lookup st i = Some m
                              \<and> m_conversation m = c_id cv)))
       \<and> (bd_conversationId p \<noteq> Canonical (c_id cv) \<longrightarrow>
            delete_multiple_messages e uid p st
              = (st, [(ToCaller, MultipleMessagesDeleted [] 0 (length ids))]))"
proof -
  let ?cid = "bd_conversationId p"
  obtain st' n' deleted' where
    l: "delete_loop e uid ?cid ids (st, 0, []) = (st', n', deleted')"
    by (cases "delete_loop e uid ?cid ids (st, 0, [])")
  have r: "delete_multiple_messages e uid p st
             = (st', [(ToCaller, MultipleMessagesDeleted deleted' n' (length ids))])"
    using assms l by (simp add: delete_multiple_messages_def)
  from delete_loop_result [OF l]
  have 1: "snd (delete_multiple_messages e uid p st)
           = [(ToCaller, MultipleMessagesDeleted (filter (deletable st ?cid) ids)
                           (length (filter (deletable st ?cid) ids)) (length ids))]"
    and 2: "\<forall>i. lookup (fst (delete_multiple_messages e uid p st)) i
                = map_option (\<lambda>x. if (\<exists>mid \<in> set ids. cast_oid mid = Some i)
                                      \<and> oid_toString (m_conversation x) = ?cid
                                   then delete_for_me_doc uid (e_now e) x else x) (lookup st i)"
    unfolding r by simp_all
  have 3: "?cid = Canonical (c_id cv) \<longrightarrow>
            (\<forall>mid. deletable st ?cid mid
                     = (\<exists>i m. cast_oid mid = Some i \<and> lookup st i = Some m
                              \<and> m_conversation m = c_id cv))"
    by (simp add: deletable_canonical)
  have 4: "?cid \<noteq> Canonical (c_id cv) \<longrightarrow>
            delete_multiple_messages e uid p st
              = (st, [(ToCaller, MultipleMessagesDeleted [] 0 (length ids))])"
  proof
    assume nc: "?cid \<noteq> Canonical (c_id cv)"
    have "cast_oid ?cid = Some (c_id cv)"
      using assms(3) by (rule find_conversation_SomeD)
    then have "?cid = NonCanonical (c_id cv)"
      using nc by (cases ?cid) simp_all
    then have "\<forall>mid \<in> set ids. \<not> deletable st ?cid mid"
      by (simp add: not_deletable_noncanonical)
    then have "delete_loop e uid ?cid ids (st, 0, []) = (st, 0, [])"
      by (rule delete_loop_none)
    then show "delete_multiple_messages e uid p st
              = (st, [(ToCaller, MultipleMessagesDeleted [] 0 (length ids))])"
      using assms by (simp add: delete_multiple_messages_def)
  qed
  from 1 2 3 4 show ?thesis by (intro conjI)
qed

text \<open>
  The claim as stated fails on the count: user 2 asks to delete message 1 twice; one
  message gets one \<open>deletedFor\<close> entry, and the reply reports two deleted ids.
\<close>

theorem bulk_delete_count_counterexample:
  "length (messages ex_sent_store) = 1
   \<and> snd (delete_multiple_messages ex_env 2 ex_bulk_twice ex_sent_store)
       = [(ToCaller, MultipleMessagesDeleted [Canonical 1, Canonical 1] 2 2)]
   \<and> map m_deletedFor (messages (fst (delete_multiple_messages ex_env 2 ex_bulk_twice ex_sent_store)))
       = [[\<lparr>df_user = 2, df_deletedAt = 1000, df_deleteType = ForMe\<rparr>]]"
  by code_simp

theorem bulk_delete_tolerant_witness:
  "bd_messageIds ex_bulk = Some [Malformed, Canonical 1, Canonical 7]
   \<and> bd_conversationId ex_bulk = Canonical 1
   \<and> find_conversation ex_sent_store (Canonical 1) 2 = Inr (Some ex_conversation)
   \<and> snd (delete_multiple_messages ex_env 2 ex_bulk ex_sent_store)
       = [(ToCaller, MultipleMessagesDeleted [Canonical 1] 1 3)]
   \<and> map_option m_deletedFor (lookup (fst (delete_multiple_messages ex_env 2 ex_bulk ex_sent_store)) 1)
       = Some [\<lparr>df_user = 2, df_deletedAt = 1000, df_deleteType = ForMe\<rparr>]
   \<and> find_conversation ex_sent_store (NonCanonical 1) 2 = Inr (Some ex_conversation)
   \<and> delete_multiple_messages ex_env 2 ex_bulk_noncanonical ex_sent_store
       = (ex_sent_store, [(ToCaller, MultipleMessagesDeleted [] 0 1)])"
proof -
  have a: "bd_messageIds ex_bulk = Some [Malformed, Canonical 1, Canonical 7]"
    and b: "bd_conversationId ex_bulk = Canonical 1"
    by (simp_all add: ex_bulk_def)
  have ne: "[Malformed, Canonical 1, Canonical 7] \<noteq> []" by simp
  have c: "find_conversation ex_sent_store (Canonical 1) 2 = Inr (Some ex_conversation)"
    by code_simp
  have c0: "find_conversation ex_sent_store (bd_conversationId ex_bulk) 2 = Inr (Some ex_conversation)"
    using c by (simp add: b)
  note t = bulk_delete_tolerant [OF a ne c0, of ex_env]
  have f: "filter (deletable ex_sent_store (Canonical 1)) [Malformed, Canonical 1, Canonical 7] = [Canonical 1]"
    by code_simp
  have l: "lookup ex_sent_store 1 = Some ex_message" by code_simp
  have m: "m_conversation ex_message = 1" "m_deletedFor ex_message = []" by code_simp+
  have 1: "snd (delete_multiple_messages ex_env 2 ex_bulk ex_sent_store)
       = [(ToCaller, MultipleMessagesDeleted [Canonical 1] 1 3)]"
    using t f by (simp add: b)
  have "lookup (fst (delete_multiple_messages ex_env 2 ex_bulk ex_sent_store)) 1
          = Some (delete_for_me_doc 2 (e_now ex_env) ex_message)"
    using t l m by (simp add: b oid_toString_def)
  then have 2: "map_option m_deletedFor (lookup (fst (delete_multiple_messages ex_env 2 ex_bulk ex_sent_store)) 1)
       = Some [\<lparr>df_user = 2, df_deletedAt = 1000, df_deleteType = ForMe\<rparr>]"
    by (simp add: delete_for_me_doc_def m ex_env_def)
  have a': "bd_messageIds ex_bulk_noncanonical = Some [Canonical 1]"
    and b': "bd_conversationId ex_bulk_noncanonical = NonCanonical 1"
    by (simp_all add: ex_bulk_noncanonical_def)
  have ne': "[Canonical 1] \<noteq> []" by simp
  have c': "find_conversation ex_sent_store (NonCanonical 1) 2 = Inr (Some ex_conversation)"
    by code_simp
  have c0': "find_conversation ex_sent_store (bd_conversationId ex_bulk_noncanonical) 2
               = Inr (Some ex_conversation)"
    using c' by (simp add: b')
  have 3: "delete_multiple_messages ex_env 2 ex_bulk_noncanonical ex_sent_store
       = (ex_sent_store, [(ToCaller, MultipleMessagesDeleted [] 0 1)])"
    using bulk_delete_tolerant [OF a' ne' c0', of ex_env] by (simp add: b')
  from a b c 1 2 c' 3 show ?thesis by (intro conjI)
qed



subsection \<open>Planner\<close>













subsection \<open>Queue consumer\<close>

text \<open>
  Claim C7 (consumer: skip, delivery, poison drop). The claim's last part does not hold on
  the code: \<open>processAutoMessage\<close> catches and logs every error raised while it
  processes a work item and returns normally, so the consumer acknowledges the item; the
  negative acknowledgement without requeue is reached only when the content of the queue
  message is not JSON. Evaluated here: a work item whose \<open>autoMessageId\<close> is not an
  id raises a cast error and is acknowledged; a work item for an AutoMessage whose
  recipient is not a user raises a type error and is acknowledged, the AutoMessage staying
  unsent; and every work item that parses is acknowledged.
\<close>

theorem consumer_acknowledges_failed_item:
  "processAutoMessage ex_env Malformed ex_store = (ex_store, [], Some CastError)
   \<and> consume ex_env (Item Malformed) ex_store = (ex_store, [], Ack)
   \<and> processAutoMessage ex_env (Canonical 1) ex_store_orphan = (ex_store_orphan, [], Some TypeError)
   \<and> consume ex_env (Item (Canonical 1)) ex_store_orphan = (ex_store_orphan, [], Ack)
   \<and> map am_isSent (autoMessages ex_store_orphan) = [False]
   \<and> consume ex_env NotJson ex_store = (ex_store, [], NackNoRequeue)
   \<and> (\<forall>e aid st. snd (snd (consume e (Item aid) st)) = Ack)"
proof -
  have 1: "processAutoMessage ex_env Malformed ex_store = (ex_store, [], Some CastError)"
    by (simp add: processAutoMessage_def)
  have 2: "consume ex_env (Item Malformed) ex_store = (ex_store, [], Ack)"
    using 1 by (simp add: consume_def)
  have 3: "processAutoMessage ex_env (Canonical 1) ex_store_orphan = (ex_store_orphan, [], Some TypeError)"
    by (simp add: processAutoMessage_def deliver_auto_message_def user_exists_def
                  ex_store_orphan_def ex_store_def)
  have 4: "consume ex_env (Item (Canonical 1)) ex_store_orphan = (ex_store_orphan, [], Ack)"
    using 3 by (simp add: consume_def)
  have 5: "map am_isSent (autoMessages ex_store_orphan) = [False]"
    by (simp add: ex_store_orphan_def)
  have 6: "consume ex_env NotJson ex_store = (ex_store, [], NackNoRequeue)"
    by (simp add: consume_def)
  have 7: "\<forall>e aid st. snd (snd (consume e (Item aid) st)) = Ack"
    by (simp add: consume_def split: prod.splits)
  from 1 2 3 4 5 6 7 show ?thesis by (intro conjI)
qed


end
